theory Spec2Isabelle
  imports Complex_Main "HOL-Library.Word"
begin

section \<open>Data model of \<^verbatim>\<open>main.go\<close>\<close>

text \<open>
  Go's \<^verbatim>\<open>int\<close> is the 64-bit signed integer of the amd64 target. The configured
  colour components are read from JSON into \<^verbatim>\<open>[3]int\<close>; they are modelled as
  \<open>int\<close>, and each conversion \<^verbatim>\<open>uint8(r)\<close> is \<open>word_of_int r\<close>, which keeps the
  low eight bits (the value modulo 256) exactly as Go's conversion does. The only
  integer that is ever incremented is \<^verbatim>\<open>streak\<close>; its wrap-around is written out
  in \<open>wrap64\<close>.

  A \<^verbatim>\<open>*source\<close> is an address: two sources with equal fields are still two sources,
  and the renderer compares and caches by address. \<open>source_ptr\<close> is such an address and
  a store \<open>mem\<close> gives the struct that lives there. Records are only built in
  \<^verbatim>\<open>main\<close> from a pointer that has already been dereferenced, so the pointer of a
  record is never nil; \<^verbatim>\<open>lastSource\<close> starts as nil and is an \<open>option\<close>.
\<close>

type_synonym uint8 = "8 word"
type_synonym uint16 = "16 word"

record source =
  Name :: string
  Path :: string
  Background :: "(int \<times> int \<times> int) option"
  Foreground :: "(int \<times> int \<times> int) option"
  Truncate :: bool

type_synonym source_ptr = nat

record config =
  Sources :: "source option list"

text \<open>\<^verbatim>\<open>tail.Line\<close> (only its \<^verbatim>\<open>Text\<close> is read) and the \<^verbatim>\<open>record\<close> struct.\<close>

record tail_Line =
  Text :: string

record record' =
  Source :: source_ptr
  Line :: tail_Line

datatype error =
    Err string
  | NilPointerDereference
  | SliceBoundsOutOfRange int

text \<open>
  The colour library: an \<^verbatim>\<open>RGBColor\<close> holds three bytes, an \<^verbatim>\<open>RGBStyle\<close> a
  foreground and a background colour. What reaches the terminal is recorded as a list of
  print calls.
\<close>

record RGBColor =
  red :: uint8
  green :: uint8
  blue :: uint8

record RGBStyle =
  style_fg :: RGBColor
  style_bg :: RGBColor

definition RGB :: "uint8 \<Rightarrow> uint8 \<Rightarrow> uint8 \<Rightarrow> RGBColor" where
  "RGB r g b = \<lparr>red = r, green = g, blue = b\<rparr>"

definition NewRGBStyle :: "RGBColor \<Rightarrow> RGBColor \<Rightarrow> RGBStyle" where
  "NewRGBStyle fg bg = \<lparr>style_fg = fg, style_bg = bg\<rparr>"

definition zero_RGBStyle :: RGBStyle where
  "zero_RGBStyle = NewRGBStyle (RGB 0 0 0) (RGB 0 0 0)"

datatype printed =
    StylePrintf RGBStyle string
  | ColorPrintf RGBColor string
  | Println string

section \<open>What the program takes from its libraries\<close>

text \<open>
  \<open>float64\<close> arithmetic is exact arithmetic followed by rounding to the nearest
  representable number, one operation at a time (amd64 fuses none of them);
  \<open>rnd64\<close> is that rounding and \<open>math_Pow\<close> is \<^verbatim>\<open>math.Pow\<close>.
  Both are parameters, as is \<^verbatim>\<open>sha256.Sum256\<close>; its result, an array of 32 bytes,
  is read through its index. Integer constants such as 255, 116, 16 and 50 are
  representable and stand for themselves.
\<close>

record libs =
  rnd64 :: "real \<Rightarrow> real"
  math_Pow :: "real \<Rightarrow> real \<Rightarrow> real"
  sha256_Sum256 :: "string \<Rightarrow> nat \<Rightarrow> uint8"

definition float64 :: "libs \<Rightarrow> int \<Rightarrow> real" where
  "float64 L i = rnd64 L (of_int i)"

definition flit :: "libs \<Rightarrow> real \<Rightarrow> real" where
  "flit L c = rnd64 L c"

definition fadd :: "libs \<Rightarrow> real \<Rightarrow> real \<Rightarrow> real" where
  "fadd L x y = rnd64 L (x + y)"

definition fsub :: "libs \<Rightarrow> real \<Rightarrow> real \<Rightarrow> real" where
  "fsub L x y = rnd64 L (x - y)"

definition fmul :: "libs \<Rightarrow> real \<Rightarrow> real \<Rightarrow> real" where
  "fmul L x y = rnd64 L (x * y)"

definition fdiv :: "libs \<Rightarrow> real \<Rightarrow> real \<Rightarrow> real" where
  "fdiv L x y = rnd64 L (x / y)"

section \<open>\<^verbatim>\<open>loadConfig\<close>, \<^verbatim>\<open>perceivedLightness\<close>, \<^verbatim>\<open>getTerminalSize\<close>\<close>

text \<open>
  The outside world at start-up: the file system, the JSON decoder (which leaves the
  \<^verbatim>\<open>*config\<close> nil on the document \<^verbatim>\<open>null\<close>), \<^verbatim>\<open>tail.TailFile\<close> and the
  window-size ioctl on standard output.
\<close>

record Winsize =
  Row :: uint16
  Col :: uint16

record world =
  ReadFile :: "string \<Rightarrow> error + string"
  Unmarshal :: "string \<Rightarrow> error + config option"
  TailFile :: "string \<Rightarrow> error + unit"
  IoctlGetWinsize :: "error + Winsize"

definition loadConfig :: "world \<Rightarrow> string \<Rightarrow> error + config option" where
  "loadConfig w filename =
     (case ReadFile w filename of
        Inl err \<Rightarrow> Inl err
      | Inr content \<Rightarrow>
          (case Unmarshal w content of
             Inl err \<Rightarrow> Inl err
           | Inr config \<Rightarrow> Inr config))"

definition linearize :: "libs \<Rightarrow> real \<Rightarrow> real" where
  "linearize L color =
     (if color \<le> flit L 0.04045 then fdiv L color (flit L 12.92)
      else math_Pow L (fdiv L (fadd L color (flit L 0.055)) (flit L 1.055)) (flit L 2.4))"

definition perceivedLightness :: "libs \<Rightarrow> int \<Rightarrow> int \<Rightarrow> int \<Rightarrow> real" where
  "perceivedLightness L r g b =
     (let nr = fdiv L (float64 L r) 255;
          ng = fdiv L (float64 L g) 255;
          nb = fdiv L (float64 L b) 255;
          y = fadd L (fadd L (fmul L (flit L 0.2126) (linearize L nr))
                             (fmul L (flit L 0.7152) (linearize L ng)))
                     (fmul L (flit L 0.0722) (linearize L nb))
      in if y \<le> flit L 0.008856 then fmul L y (flit L 903.3)
         else fsub L (fmul L (math_Pow L y (flit L (1 / 3))) 116) 16)"

text \<open>A failed ioctl makes \<^verbatim>\<open>getTerminalSize\<close> panic with the error.\<close>

definition getTerminalSize :: "world \<Rightarrow> error + (int \<times> int)" where
  "getTerminalSize w =
     (case IoctlGetWinsize w of
        Inl err \<Rightarrow> Inl err
      | Inr ws \<Rightarrow> Inr (uint (Col ws), uint (Row ws)))"

section \<open>The renderer: \<^verbatim>\<open>writer\<close>\<close>

record cache =
  primaries :: "source_ptr \<rightharpoonup> RGBColor"
  styles :: "source_ptr \<rightharpoonup> RGBStyle"

definition empty_cache :: cache where
  "empty_cache = \<lparr>primaries = Map.empty, styles = Map.empty\<rparr>"

text \<open>
  The closure \<^verbatim>\<open>getStyle\<close>: it reads and updates the two maps of the enclosing
  \<^verbatim>\<open>writer\<close>, here passed in and returned. A missing key of \<^verbatim>\<open>styles\<close> reads as
  the zero value. \<open>chosen_rgb\<close> is lines 129 to 135, the three integers \<^verbatim>\<open>r, g, b\<close>.
\<close>

definition chosen_rgb :: "libs \<Rightarrow> source \<Rightarrow> int \<times> int \<times> int" where
  "chosen_rgb L s =
     (case Background s of
        None \<Rightarrow>
          (let hash = sha256_Sum256 L (Path s)
           in (uint (hash 0), uint (hash 1), uint (hash 2)))
      | Some (r, g, b) \<Rightarrow> (r, g, b))"

definition getStyle ::
  "libs \<Rightarrow> (source_ptr \<Rightarrow> source) \<Rightarrow> cache \<Rightarrow> source_ptr \<Rightarrow> (RGBColor \<times> RGBStyle) \<times> cache" where
  "getStyle L mem c src =
     (case primaries c src of
        None \<Rightarrow>
          (let (r, g, b) = chosen_rgb L (mem src);
               primary = RGB (word_of_int r) (word_of_int g) (word_of_int b);
               bg = primary;
               fg = (case Foreground (mem src) of
                       None \<Rightarrow>
                         if perceivedLightness L r g b \<ge> 50 then RGB 0 0 0
                         else RGB 255 255 255
                     | Some (r', g', b') \<Rightarrow>
                         RGB (word_of_int r') (word_of_int g') (word_of_int b'));
               style = NewRGBStyle fg bg
           in ((primary, style),
               c\<lparr>primaries := (primaries c)(src \<mapsto> primary),
                 styles := (styles c)(src \<mapsto> style)\<rparr>))
      | Some primary \<Rightarrow>
          ((primary, case styles c src of None \<Rightarrow> zero_RGBStyle | Some style \<Rightarrow> style), c))"

text \<open>
  The renderer is the only caller, and it starts from two empty maps: the cache at any
  moment is the empty cache after some sequence of calls.
\<close>

definition calls :: "libs \<Rightarrow> (source_ptr \<Rightarrow> source) \<Rightarrow> cache \<Rightarrow> source_ptr list \<Rightarrow> cache" where
  "calls L mem c qs = foldl (\<lambda>c q. snd (getStyle L mem c q)) c qs"

record writer_state =
  lastSource :: "source_ptr option"
  streak :: int
  colors :: cache
  stdout :: "printed list"

definition init_state :: writer_state where
  "init_state = \<lparr>lastSource = None, streak = 0, colors = empty_cache, stdout = []\<rparr>"

definition wrap64 :: "int \<Rightarrow> int" where
  "wrap64 x = (x + 2 ^ 63) mod 2 ^ 64 - 2 ^ 63"

text \<open>The two header forms, each three print calls.\<close>

definition header :: "RGBColor \<times> RGBStyle \<Rightarrow> source \<Rightarrow> printed list" where
  "header ps s =
     [StylePrintf (snd ps) ('' '' @ Name s @ '' ''),
      ColorPrintf (fst ps) ('' '' @ Path s),
      Println '''']"

definition header_cont :: "RGBColor \<times> RGBStyle \<Rightarrow> source \<Rightarrow> printed list" where
  "header_cont ps s =
     [StylePrintf (snd ps) ('' '' @ Name s @ '' (cont) ''),
      ColorPrintf (fst ps) ('' '' @ Path s),
      Println '''']"

text \<open>
  Lines 169 to 184: the header decision.
\<close>

definition print_header ::
  "libs \<Rightarrow> (source_ptr \<Rightarrow> source) \<Rightarrow> int \<Rightarrow> writer_state \<Rightarrow> source_ptr \<Rightarrow> writer_state" where
  "print_header L mem height st src =
     (if Some src \<noteq> lastSource st then
        (let (ps, c) = getStyle L mem (colors st) src
         in st\<lparr>colors := c, stdout := stdout st @ header ps (mem src), streak := 1\<rparr>)
      else
        (let st1 = st\<lparr>streak := wrap64 (streak st + 1)\<rparr>
         in if streak st1 = height then
              (let (ps, c) = getStyle L mem (colors st1) src
               in st1\<lparr>colors := c, stdout := stdout st1 @ header_cont ps (mem src),
                      streak := 1\<rparr>)
            else st1))"

text \<open>
  Lines 186 to 190: the body. \<^verbatim>\<open>len\<close> counts bytes and the slice cuts at a byte
  index, as \<open>length\<close> and \<open>take\<close> do on a \<open>string\<close>. The slice expression
  \<^verbatim>\<open>Text[0 : width-1]\<close> panics unless \<open>0 \<le> width - 1 \<le> len(Text)\<close>.
\<close>

definition line_body :: "int \<Rightarrow> source \<Rightarrow> string \<Rightarrow> error + string" where
  "line_body width s txt =
     (if Truncate s \<and> int (length txt) \<ge> width then
        (if 0 \<le> width - 1 \<and> width - 1 \<le> int (length txt)
         then Inr (take (nat (width - 1)) txt)
         else Inl (SliceBoundsOutOfRange (width - 1)))
      else Inr txt)"

text \<open>
  One turn of the loop on a received record. A panic ends the process; what had been
  printed by then stays printed.
\<close>

definition process_record ::
  "libs \<Rightarrow> (source_ptr \<Rightarrow> source) \<Rightarrow> int \<Rightarrow> int \<Rightarrow> writer_state \<Rightarrow> record'
     \<Rightarrow> (error \<times> printed list) + writer_state" where
  "process_record L mem width height st rec =
     (let st1 = print_header L mem height st (Source rec)
      in case line_body width (mem (Source rec)) (Text (Line rec)) of
           Inl e \<Rightarrow> Inl (e, stdout st1)
         | Inr body \<Rightarrow>
             Inr (st1\<lparr>stdout := stdout st1 @ [Println body],
                      lastSource := Some (Source rec)\<rparr>))"

text \<open>
  The \<^verbatim>\<open>select\<close> loop. Which branch each turn takes is decided by the scheduler and
  the two channels; the sequence of branches taken is the list of events. When the list
  is used up the renderer is blocked in \<^verbatim>\<open>select\<close>.
\<close>

datatype event = Stop | Recv record'

datatype outcome =
    Blocked writer_state
  | Returned writer_state
  | Panicked error "printed list"

fun writer_loop ::
  "libs \<Rightarrow> (source_ptr \<Rightarrow> source) \<Rightarrow> int \<Rightarrow> int \<Rightarrow> writer_state \<Rightarrow> event list \<Rightarrow> outcome" where
  "writer_loop L mem width height st [] = Blocked st"
| "writer_loop L mem width height st (Stop # evs) = Returned st"
| "writer_loop L mem width height st (Recv rec # evs) =
     (case process_record L mem width height st rec of
        Inl (e, out) \<Rightarrow> Panicked e out
      | Inr st' \<Rightarrow> writer_loop L mem width height st' evs)"

definition writer :: "libs \<Rightarrow> world \<Rightarrow> (source_ptr \<Rightarrow> source) \<Rightarrow> event list \<Rightarrow> outcome" where
  "writer L w mem evs =
     (case getTerminalSize w of
        Inl e \<Rightarrow> Panicked e []
      | Inr (width, height) \<Rightarrow> writer_loop L mem width height init_state evs)"

section \<open>Start-up: \<^verbatim>\<open>main\<close>\<close>

text \<open>
  \<^verbatim>\<open>err.Error()\<close>, and the loop over \<^verbatim>\<open>config.Sources\<close> (lines 208 to 225). A source
  whose path cannot be followed costs one diagnostic line and is skipped; for every other
  source a producer goroutine is started, recorded here by the source's position in the
  list. An element that is nil (a JSON \<^verbatim>\<open>null\<close>) cannot be dereferenced.
  \<^verbatim>\<open>fmt.Println\<close> puts a space between its two operands.
\<close>

fun Error :: "error \<Rightarrow> string" where
  "Error (Err msg) = msg"
| "Error NilPointerDereference = ''invalid memory address or nil pointer dereference''"
| "Error (SliceBoundsOutOfRange i) = ''slice bounds out of range''"

fun tail_sources ::
  "world \<Rightarrow> source_ptr \<Rightarrow> source option list \<Rightarrow> source_ptr list \<Rightarrow> printed list
     \<Rightarrow> (error \<times> printed list) + (source_ptr list \<times> printed list)" where
  "tail_sources w i [] files out = Inr (files, out)"
| "tail_sources w i (None # srcs) files out = Inl (NilPointerDereference, out)"
| "tail_sources w i (Some src # srcs) files out =
     (case TailFile w (Path src) of
        Inl err \<Rightarrow>
          tail_sources w (Suc i) srcs files
            (out @ [Println (''>>>>>>>>>>>>>>>>>>>>> error '' @ '' '' @ Error err)])
      | Inr file \<Rightarrow> tail_sources w (Suc i) srcs (files @ [i]) out)"

text \<open>
  How start-up ends: \<^verbatim>\<open>log.Fatal\<close> (the process exits with status 1), an
  unrecovered panic (the process is killed, whatever its other goroutines were doing), or the
  program running with its producer goroutines and its renderer. The renderer is started
  last and queries the terminal first.
\<close>

datatype startup =
    Fatal error
  | Crashed error "printed list"
  | Started "source_ptr list" "printed list" "int \<times> int"

definition main :: "world \<Rightarrow> startup" where
  "main w =
     (case loadConfig w ''nexus.json'' of
        Inl err \<Rightarrow> Fatal err
      | Inr None \<Rightarrow> Crashed NilPointerDereference []
      | Inr (Some config) \<Rightarrow>
          (case tail_sources w 0 (Sources config) [] [] of
             Inl (e, out) \<Rightarrow> Crashed e out
           | Inr (files, out) \<Rightarrow>
               (case getTerminalSize w of
                  Inl e \<Rightarrow> Crashed e out
                | Inr (width, height) \<Rightarrow> Started files out (width, height))))"

section \<open>Vocabulary of the statements\<close>

text \<open>
  \<open>fresh\<close> is what a first call computes for a source with the given fields, and
  \<open>cache_ok\<close> says that every entry of the two maps is such a result.
\<close>

definition fresh :: "libs \<Rightarrow> source \<Rightarrow> RGBColor \<times> RGBStyle" where
  "fresh L s = fst (getStyle L (\<lambda>p. s) empty_cache 0)"

definition cache_ok :: "libs \<Rightarrow> (source_ptr \<Rightarrow> source) \<Rightarrow> cache \<Rightarrow> bool" where
  "cache_ok L mem c =
     (\<forall>p. primaries c p = None \<or>
          (primaries c p = Some (fst (fresh L (mem p))) \<and>
           styles c p = Some (snd (fresh L (mem p)))))"

text \<open>The three components of a colour, as integers.\<close>

definition rgb_of :: "RGBColor \<Rightarrow> int \<times> int \<times> int" where
  "rgb_of c = (uint (red c), uint (green c), uint (blue c))"

text \<open>
  A header is the only output that starts with a styled print. \<open>rendered\<close> is the body
  of a line that is printed without a panic, and \<open>cadence\<close> lays out the output of a run
  of one source: before the body with index \<open>i\<close> (from 0) stands the plain header when
  \<open>i = 0\<close>, and the continuation header when \<open>i\<close> is a positive multiple of
  \<open>H - 1\<close>.
\<close>

fun is_header :: "printed \<Rightarrow> bool" where
  "is_header (StylePrintf style s) = True"
| "is_header (ColorPrintf c s) = False"
| "is_header (Println s) = False"

definition rendered :: "int \<Rightarrow> source \<Rightarrow> string \<Rightarrow> string" where
  "rendered W s txt =
     (if Truncate s \<and> W \<le> int (length txt) then take (nat (W - 1)) txt else txt)"

fun cadence ::
  "RGBColor \<times> RGBStyle \<Rightarrow> source \<Rightarrow> int \<Rightarrow> nat \<Rightarrow> string list \<Rightarrow> printed list" where
  "cadence ps s H i [] = []"
| "cadence ps s H i (b # bs) =
     (if i = 0 then header ps s
      else if i mod nat (H - 1) = 0 then header_cont ps s
      else [])
     @ [Println b] @ cadence ps s H (Suc i) bs"

fun final_stdout :: "outcome \<Rightarrow> printed list" where
  "final_stdout (Blocked st) = stdout st"
| "final_stdout (Returned st) = stdout st"
| "final_stdout (Panicked e out) = out"

text \<open>
  For start-up: the positions (counted from \<open>i\<close>) of the sources whose path can be
  followed, and the diagnostic lines of the others.
\<close>

definition followed :: "world \<Rightarrow> nat \<Rightarrow> source list \<Rightarrow> source_ptr list" where
  "followed w i srcs =
     map fst (filter (\<lambda>(j, s). \<not> isl (TailFile w (Path s))) (enumerate i srcs))"

definition diagnostics :: "world \<Rightarrow> source list \<Rightarrow> printed list" where
  "diagnostics w srcs =
     concat (map (\<lambda>s. case TailFile w (Path s) of
                         Inl err \<Rightarrow> [Println (''>>>>>>>>>>>>>>>>>>>>> error '' @ '' '' @ Error err)]
                       | Inr file \<Rightarrow> []) srcs)"

text \<open>
  For the lightness: the local variables \<^verbatim>\<open>nr\<close> and \<^verbatim>\<open>y\<close> of \<^verbatim>\<open>perceivedLightness\<close> and
  its last step, by name, and what the statements ask of \<open>float64\<close> arithmetic.
  \<open>float64_accurate\<close> says that rounding keeps 0 and moves a number of magnitude up to
  1024 by at most \<open>eps64\<close>, and that \<^verbatim>\<open>math.Pow\<close> is within \<open>eps64\<close> of the power
  for a base in (0, 2] and an exponent in (0, 4]. Rounding to the nearest binary64 number
  moves a number of magnitude up to 1024 by at most \<open>1 / 2 ^ 44\<close>, which is below
  \<open>eps64\<close>; the bound on \<^verbatim>\<open>math.Pow\<close> allows it an error of some hundred units in
  the last place.
\<close>

definition normalized :: "libs \<Rightarrow> int \<Rightarrow> real" where
  "normalized L k = fdiv L (float64 L k) 255"

definition luminance :: "libs \<Rightarrow> int \<Rightarrow> int \<Rightarrow> int \<Rightarrow> real" where
  "luminance L r g b =
     fadd L (fadd L (fmul L (flit L 0.2126) (linearize L (normalized L r)))
                    (fmul L (flit L 0.7152) (linearize L (normalized L g))))
            (fmul L (flit L 0.0722) (linearize L (normalized L b)))"

definition lightness_of :: "libs \<Rightarrow> real \<Rightarrow> real" where
  "lightness_of L y =
     (if y \<le> flit L 0.008856 then fmul L y (flit L 903.3)
      else fsub L (fmul L (math_Pow L y (flit L (1 / 3))) 116) 16)"

definition eps64 :: real where
  "eps64 = 1 / 10 ^ 12"

definition float64_accurate :: "libs \<Rightarrow> bool" where
  "float64_accurate L \<longleftrightarrow>
     rnd64 L 0 = 0 \<and>
     (\<forall>x. \<bar>x\<bar> \<le> 1024 \<longrightarrow> \<bar>rnd64 L x - x\<bar> \<le> eps64) \<and>
     (\<forall>x y. 0 < x \<and> x \<le> 2 \<and> 0 < y \<and> y \<le> 4 \<longrightarrow>
        \<bar>math_Pow L x y - x powr y\<bar> \<le> eps64)"

subsection \<open>Concrete inputs\<close>

text \<open>
  Exact arithmetic in place of rounding, and a stand-in for the hash whose bytes all
  equal the length of the path. Three sources: one with both colours configured, one
  with none, one whose background lies outside 0 to 255.
\<close>

definition ideal_libs :: libs where
  "ideal_libs =
     \<lparr>rnd64 = (\<lambda>x. x), math_Pow = (powr),
      sha256_Sum256 = (\<lambda>s i. of_nat (length s))\<rparr>"

definition src_a :: source where
  "src_a = \<lparr>Name = ''a'', Path = ''/tmp/a.log'', Background = Some (0, 0, 0),
            Foreground = Some (255, 255, 255), Truncate = False\<rparr>"

definition src_b :: source where
  "src_b = \<lparr>Name = ''b'', Path = ''/tmp/b.log'', Background = None,
            Foreground = None, Truncate = True\<rparr>"

definition src_c :: source where
  "src_c = \<lparr>Name = ''c'', Path = ''/tmp/c.log'', Background = Some (256, 256, 256),
            Foreground = None, Truncate = True\<rparr>"

definition example_mem :: "source_ptr \<Rightarrow> source" where
  "example_mem p = (if p = 0 then src_a else if p = 1 then src_b else src_c)"

definition example_world :: "uint16 \<Rightarrow> uint16 \<Rightarrow> world" where
  "example_world cols rows =
     \<lparr>ReadFile = (\<lambda>f. if f = ''nexus.json'' then Inr ''{}'' else Inl (Err ''no such file'')),
      Unmarshal = (\<lambda>c. Inr (Some \<lparr>Sources = [Some src_a, Some src_b, Some src_c]\<rparr>)),
      TailFile = (\<lambda>p. if p = ''/tmp/b.log'' then Inl (Err ''permission denied'') else Inr ()),
      IoctlGetWinsize = Inr \<lparr>Row = rows, Col = cols\<rparr>\<rparr>"

definition line :: "source_ptr \<Rightarrow> string \<Rightarrow> record'" where
  "line p txt = \<lparr>Source = p, Line = \<lparr>Text = txt\<rparr>\<rparr>"

text \<open>Seven lines of the first source, and the colours of the first two sources.\<close>

definition seven :: "record' list" where
  "seven = map (line 0) [''one'', ''two'', ''three'', ''four'', ''five'', ''six'', ''seven'']"

definition style_a :: "RGBColor \<times> RGBStyle" where
  "style_a = (RGB 0 0 0, NewRGBStyle (RGB 255 255 255) (RGB 0 0 0))"

definition style_b :: "RGBColor \<times> RGBStyle" where
  "style_b = (RGB 10 10 10, NewRGBStyle (RGB 255 255 255) (RGB 10 10 10))"

text \<open>
  An arithmetic that does round: every result is moved to the nearest multiple of
  \<open>1 / 2 ^ 44\<close>.
\<close>

definition grid :: "real \<Rightarrow> real" where
  "grid x = of_int (round (x * 2 ^ 44)) / 2 ^ 44"

definition grid_libs :: libs where
  "grid_libs =
     \<lparr>rnd64 = grid, math_Pow = (\<lambda>x y. grid (x powr y)),
      sha256_Sum256 = (\<lambda>s i. of_nat (length s))\<rparr>"

section \<open>The colour cache\<close>

lemma fresh_eq:
  "fresh L s =
     (case chosen_rgb L s of
        (r, g, b) \<Rightarrow>
          (RGB (word_of_int r) (word_of_int g) (word_of_int b),
           NewRGBStyle
             (case Foreground s of
                None \<Rightarrow> if 50 \<le> perceivedLightness L r g b then RGB 0 0 0 else RGB 255 255 255
              | Some (r', g', b') \<Rightarrow> RGB (word_of_int r') (word_of_int g') (word_of_int b'))
             (RGB (word_of_int r) (word_of_int g) (word_of_int b))))"
  by (simp add: fresh_def getStyle_def empty_cache_def Let_def split: prod.splits)

lemma getStyle_miss:
  "primaries c p = None \<Longrightarrow>
   getStyle L mem c p =
     (fresh L (mem p),
      c\<lparr>primaries := (primaries c)(p \<mapsto> fst (fresh L (mem p))),
        styles := (styles c)(p \<mapsto> snd (fresh L (mem p)))\<rparr>)"
  by (simp add: getStyle_def fresh_eq Let_def split: prod.splits)

lemma getStyle_hit:
  "primaries c p = Some x \<Longrightarrow>
   getStyle L mem c p = ((x, case styles c p of None \<Rightarrow> zero_RGBStyle | Some s \<Rightarrow> s), c)"
  by (simp add: getStyle_def)

lemma cache_ok_empty: "cache_ok L mem empty_cache"
  by (simp add: cache_ok_def empty_cache_def)

lemma getStyle_ok_fst:
  assumes "cache_ok L mem c"
  shows "fst (getStyle L mem c p) = fresh L (mem p)"
proof (cases "primaries c p")
  case None
  then show ?thesis by (simp add: getStyle_miss)
next
  case (Some x)
  with assms have "x = fst (fresh L (mem p))" "styles c p = Some (snd (fresh L (mem p)))"
    by (auto simp: cache_ok_def dest: spec [of _ p])
  with Some show ?thesis by (simp add: getStyle_hit)
qed

lemma getStyle_ok_snd:
  assumes "cache_ok L mem c"
  shows "cache_ok L mem (snd (getStyle L mem c p))"
proof (cases "primaries c p")
  case None
  with assms show ?thesis by (simp add: getStyle_miss cache_ok_def)
next
  case (Some x)
  with assms show ?thesis by (simp add: getStyle_hit)
qed

lemma calls_ok: "cache_ok L mem c \<Longrightarrow> cache_ok L mem (calls L mem c qs)"
  unfolding calls_def
  by (induction qs arbitrary: c) (simp_all add: getStyle_ok_snd)

lemma getStyle_reachable:
  "fst (getStyle L mem (calls L mem empty_cache qs) p) = fresh L (mem p)"
  by (simp add: getStyle_ok_fst calls_ok cache_ok_empty)

text \<open>A second call for the same source returns what the first returned and changes nothing.\<close>

lemma getStyle_idem:
  "getStyle L mem (snd (getStyle L mem c p)) p =
     (fst (getStyle L mem c p), snd (getStyle L mem c p))"
  by (cases "primaries c p") (simp_all add: getStyle_miss getStyle_hit)

subsection \<open>The colours of the three example sources\<close>

lemmas f64_defs =
  perceivedLightness_def linearize_def fdiv_def float64_def flit_def fadd_def fmul_def fsub_def

lemma fresh_src_a: "fresh ideal_libs src_a = (RGB 0 0 0, NewRGBStyle (RGB 255 255 255) (RGB 0 0 0))"
  by (simp add: fresh_eq chosen_rgb_def src_a_def)

lemma lightness_10: "perceivedLightness ideal_libs 10 10 10 < 50"
  by (simp add: f64_defs ideal_libs_def)

lemma fresh_src_b: "fresh ideal_libs src_b = (RGB 10 10 10, NewRGBStyle (RGB 255 255 255) (RGB 10 10 10))"
  using lightness_10 by (simp add: fresh_eq chosen_rgb_def src_b_def ideal_libs_def)

lemma ideal_rnd: "rnd64 ideal_libs x = x"
  by (simp add: ideal_libs_def)

lemma ideal_pow: "math_Pow ideal_libs x y = x powr y"
  by (simp add: ideal_libs_def)

lemma lightness_256: "50 \<le> perceivedLightness ideal_libs 256 256 256"
proof -
  define l where "l = linearize ideal_libs (256 / 255)"
  have "l = ((256 / 255 + 0.055) / 1.055) powr 2.4"
    by (simp add: l_def linearize_def fdiv_def fadd_def flit_def ideal_rnd ideal_pow)
  moreover have "1 \<le> ((256 / 255 + 0.055) / 1.055 :: real) powr 2.4"
    by (rule ge_one_powr_ge_zero) simp_all
  ultimately have l: "1 \<le> l" by simp
  have y: "0.2126 * l + 0.7152 * l + 0.0722 * l = l" by simp
  have c: "1 \<le> l powr (1 / 3)" using l by (rule ge_one_powr_ge_zero) simp
  have "perceivedLightness ideal_libs 256 256 256 =
          (if l \<le> 0.008856 then l * 903.3 else l powr (1 / 3) * 116 - 16)"
    unfolding perceivedLightness_def fdiv_def float64_def flit_def fadd_def fmul_def fsub_def
      ideal_rnd ideal_pow Let_def
    by (simp only: of_int_numeral l_def [symmetric] y)
  then show ?thesis using c l by simp
qed

text \<open>
  With exact arithmetic in place of \<open>float64\<close>, black has lightness 0 and white has
  lightness 100. This says nothing about the rounded results.
\<close>

lemma ideal_lightness_black: "perceivedLightness ideal_libs 0 0 0 = 0"
  by (simp add: f64_defs ideal_libs_def)

lemma ideal_lightness_white: "perceivedLightness ideal_libs 255 255 255 = 100"
  by (simp add: f64_defs ideal_libs_def)

lemma byte_256: "(256 :: uint8) = 0"
  by simp

lemma fresh_src_c: "fresh ideal_libs src_c = (RGB 0 0 0, NewRGBStyle (RGB 0 0 0) (RGB 0 0 0))"
  using lightness_256 by (simp add: fresh_eq chosen_rgb_def src_c_def byte_256)

text \<open>
  C3. Determinism of the colour assignment: whatever calls came before, in whichever run
  of the renderer, a call for a source returns the same (primary, style) pair as any
  other call for a source with the same configuration. The pair computed first and
  every pair read from the cache afterwards are the same bytes.
\<close>

theorem getStyle_deterministic:
  "mem p = mem' p' \<Longrightarrow>
   fst (getStyle L mem (calls L mem empty_cache qs) p) =
   fst (getStyle L mem' (calls L mem' empty_cache qs') p')"
  by (simp add: getStyle_reachable)

theorem getStyle_deterministic_witness:
  "fst (getStyle ideal_libs example_mem (calls ideal_libs example_mem empty_cache [0, 1, 0]) 0) =
   fst (getStyle ideal_libs example_mem (calls ideal_libs example_mem empty_cache []) 0) \<and>
   fst (getStyle ideal_libs example_mem (calls ideal_libs example_mem empty_cache []) 0) =
   (RGB 0 0 0, NewRGBStyle (RGB 255 255 255) (RGB 0 0 0))"
  using getStyle_deterministic [of example_mem 0 example_mem 0 ideal_libs "[0, 1, 0]" "[]"]
  by (simp add: getStyle_reachable fresh_src_a example_mem_def)


section \<open>Colour assignment\<close>

lemma rgb_of_RGB:
  "rgb_of (RGB (word_of_int r) (word_of_int g) (word_of_int b)) = (r mod 256, g mod 256, b mod 256)"
  by (simp add: rgb_of_def RGB_def uint_word_of_int)

lemma chosen_rgb_hash:
  "Background s = None \<Longrightarrow>
   chosen_rgb L s =
     (uint (sha256_Sum256 L (Path s) 0), uint (sha256_Sum256 L (Path s) 1),
      uint (sha256_Sum256 L (Path s) 2))"
  by (simp add: chosen_rgb_def Let_def)

lemma chosen_rgb_explicit: "Background s = Some (r, g, b) \<Longrightarrow> chosen_rgb L s = (r, g, b)"
  by (simp add: chosen_rgb_def)

lemma fresh_fst:
  "chosen_rgb L s = (r, g, b) \<Longrightarrow> fst (fresh L s) = RGB (word_of_int r) (word_of_int g) (word_of_int b)"
  by (simp add: fresh_eq)

lemma fresh_bg: "style_bg (snd (fresh L s)) = fst (fresh L s)"
  by (simp add: fresh_eq NewRGBStyle_def split: prod.splits)

lemma fresh_fg:
  "Foreground s = None \<Longrightarrow> chosen_rgb L s = (r, g, b) \<Longrightarrow>
   style_fg (snd (fresh L s)) =
     (if 50 \<le> perceivedLightness L r g b then RGB 0 0 0 else RGB 255 255 255)"
  by (simp add: fresh_eq NewRGBStyle_def)

lemma chosen_rgb_in_range:
  "Background s = None \<Longrightarrow> chosen_rgb L s = (r, g, b) \<Longrightarrow>
   0 \<le> r \<and> r < 256 \<and> 0 \<le> g \<and> g < 256 \<and> 0 \<le> b \<and> b < 256"
proof -
  assume "Background s = None" and c: "chosen_rgb L s = (r, g, b)"
  then have "r = uint (sha256_Sum256 L (Path s) 0)" "g = uint (sha256_Sum256 L (Path s) 1)"
    "b = uint (sha256_Sum256 L (Path s) 2)"
    by (simp_all add: chosen_rgb_hash)
  moreover have "uint w < 256" for w :: uint8
    using uint_bounded [of w] by simp
  ultimately show ?thesis by simp
qed

text \<open>
  C4, as amended. A source with no configured foreground gets black text when the
  perceived lightness of the chosen integer triplet \<open>(r, g, b)\<close> is at least 50 and white
  text otherwise, where the chosen triplet is the first three bytes of the hash of the
  path, or else the configured background integers as they are, before their conversion
  to bytes. The background of the style is that triplet converted to bytes; it is the
  triplet itself whenever no background is configured or every configured component lies
  within 0 to 255, and only then is the lightness that of the background shown. This
  holds for a first call and for every later, cached one.
\<close>

theorem default_foreground:
  "Foreground (mem src) = None \<Longrightarrow> chosen_rgb L (mem src) = (r, g, b) \<Longrightarrow>
   res = fst (getStyle L mem (calls L mem empty_cache qs) src) \<Longrightarrow>
   style_fg (snd res) =
     (if 50 \<le> perceivedLightness L r g b then RGB 0 0 0 else RGB 255 255 255) \<and>
   style_bg (snd res) = RGB (word_of_int r) (word_of_int g) (word_of_int b) \<and>
   (Background (mem src) = None \<or>
    (0 \<le> r \<and> r < 256 \<and> 0 \<le> g \<and> g < 256 \<and> 0 \<le> b \<and> b < 256) \<longrightarrow>
      rgb_of (style_bg (snd res)) = (r, g, b))"
proof -
  assume fg: "Foreground (mem src) = None" and c: "chosen_rgb L (mem src) = (r, g, b)"
    and res: "res = fst (getStyle L mem (calls L mem empty_cache qs) src)"
  have 1: "style_fg (snd res) =
     (if 50 \<le> perceivedLightness L r g b then RGB 0 0 0 else RGB 255 255 255)"
    using fg c by (simp add: res getStyle_reachable fresh_fg)
  have 2: "style_bg (snd res) = RGB (word_of_int r) (word_of_int g) (word_of_int b)"
    using c by (simp add: res getStyle_reachable fresh_bg fresh_fst)
  have 3: "rgb_of (style_bg (snd res)) = (r, g, b)"
    if "0 \<le> r \<and> r < 256 \<and> 0 \<le> g \<and> g < 256 \<and> 0 \<le> b \<and> b < 256"
    using that by (simp add: 2 rgb_of_RGB)
  show ?thesis using 1 2 3 chosen_rgb_in_range [OF _ c] by blast
qed

theorem default_foreground_witness:
  "Foreground (example_mem 1) = None \<and> chosen_rgb ideal_libs (example_mem 1) = (10, 10, 10) \<and>
   style_fg (snd (fst (getStyle ideal_libs example_mem (calls ideal_libs example_mem empty_cache [0]) 1)))
     = RGB 255 255 255 \<and>
   rgb_of (style_bg (snd (fst (getStyle ideal_libs example_mem
     (calls ideal_libs example_mem empty_cache [0]) 1)))) = (10, 10, 10) \<and>
   Foreground (example_mem 2) = None \<and> chosen_rgb ideal_libs (example_mem 2) = (256, 256, 256) \<and>
   style_fg (snd (fst (getStyle ideal_libs example_mem (calls ideal_libs example_mem empty_cache [0]) 2)))
     = RGB 0 0 0"
  using default_foreground [of example_mem 1 ideal_libs 10 10 10 _ "[0]"]
    default_foreground [of example_mem 2 ideal_libs 256 256 256 _ "[0]"]
    lightness_10 lightness_256
  by (simp add: example_mem_def src_b_def src_c_def chosen_rgb_def ideal_libs_def rgb_of_def
      RGB_def)

text \<open>
  C4 as stated fails: for the configured background (256, 256, 256) and no configured
  foreground, the background shown is (0, 0, 0), whose perceived lightness is 0, below
  50, and yet the text is black, not white.
\<close>

theorem default_foreground_counterexample:
  "Foreground (example_mem 2) = None \<and>
   rgb_of (style_bg (snd (fst (getStyle ideal_libs example_mem empty_cache 2)))) = (0, 0, 0) \<and>
   perceivedLightness ideal_libs 0 0 0 < 50 \<and>
   style_fg (snd (fst (getStyle ideal_libs example_mem empty_cache 2))) = RGB 0 0 0 \<and>
   style_fg (snd (fst (getStyle ideal_libs example_mem empty_cache 2))) \<noteq> RGB 255 255 255"
proof -
  have g: "fst (getStyle ideal_libs example_mem empty_cache 2) = fresh ideal_libs src_c"
    by (simp add: getStyle_miss empty_cache_def example_mem_def)
  have "RGB 0 0 0 \<noteq> RGB 255 255 255" by (simp add: RGB_def)
  then show ?thesis
    by (simp add: g fresh_src_c NewRGBStyle_def rgb_of_def ideal_lightness_black)
      (simp add: RGB_def example_mem_def src_c_def)
qed

text \<open>
  C5, as amended. With no configured background, the primary colour and the style's
  background are the first three bytes of the hash of the path. With a configured
  background, they are the configured components converted to bytes, that is reduced
  modulo 256; this is the configured triplet itself exactly when every component lies
  within 0 to 255.
\<close>

theorem background_choice:
  "res = fst (getStyle L mem (calls L mem empty_cache qs) src) \<Longrightarrow>
   h = sha256_Sum256 L (Path (mem src)) \<Longrightarrow>
   (Background (mem src) = None \<longrightarrow>
      fst res = RGB (h 0) (h 1) (h 2) \<and> style_bg (snd res) = RGB (h 0) (h 1) (h 2)) \<and>
   (Background (mem src) = Some (r, g, b) \<longrightarrow>
      rgb_of (fst res) = (r mod 256, g mod 256, b mod 256) \<and> style_bg (snd res) = fst res \<and>
      (0 \<le> r \<and> r < 256 \<and> 0 \<le> g \<and> g < 256 \<and> 0 \<le> b \<and> b < 256 \<longrightarrow>
         rgb_of (fst res) = (r, g, b)))"
  by (auto simp: getStyle_reachable fresh_bg fresh_fst chosen_rgb_hash chosen_rgb_explicit rgb_of_RGB)

theorem background_choice_witness:
  "Background (example_mem 1) = None \<and>
   fst (fst (getStyle ideal_libs example_mem (calls ideal_libs example_mem empty_cache [0]) 1)) =
     RGB 10 10 10 \<and>
   Background (example_mem 0) = Some (0, 0, 0) \<and>
   rgb_of (fst (fst (getStyle ideal_libs example_mem (calls ideal_libs example_mem empty_cache [0]) 0))) =
     (0, 0, 0)"
  using background_choice [of _ ideal_libs example_mem "[0]" 1 _ 0 0 0]
    background_choice [of _ ideal_libs example_mem "[0]" 0 _ 0 0 0]
  by (simp add: example_mem_def src_a_def src_b_def ideal_libs_def)

text \<open>
  C5 as stated fails: the configured background (256, 256, 256) is not used verbatim,
  the primary colour is (0, 0, 0).
\<close>

theorem verbatim_background_counterexample:
  "Background (example_mem 2) = Some (256, 256, 256) \<and>
   rgb_of (fst (fst (getStyle ideal_libs example_mem empty_cache 2))) = (0, 0, 0) \<and>
   rgb_of (fst (fst (getStyle ideal_libs example_mem empty_cache 2))) \<noteq> (256, 256, 256)"
  by (simp add: getStyle_miss empty_cache_def example_mem_def fresh_src_c rgb_of_def RGB_def)
    (simp add: src_c_def)

text \<open>
  C10. For a configured background, the colour shown has each component reduced modulo
  256, while the default foreground is chosen from the perceived lightness of the
  configured integers as they are; when a component lies outside 0 to 255 the two are
  different triplets.
\<close>

theorem out_of_range_background:
  "Background (mem src) = Some (r, g, b) \<Longrightarrow> Foreground (mem src) = None \<Longrightarrow>
   res = fst (getStyle L mem (calls L mem empty_cache qs) src) \<Longrightarrow>
   rgb_of (style_bg (snd res)) = (r mod 256, g mod 256, b mod 256) \<and>
   style_fg (snd res) =
     (if 50 \<le> perceivedLightness L r g b then RGB 0 0 0 else RGB 255 255 255) \<and>
   (\<not> (0 \<le> r \<and> r < 256 \<and> 0 \<le> g \<and> g < 256 \<and> 0 \<le> b \<and> b < 256) \<longrightarrow>
      rgb_of (style_bg (snd res)) \<noteq> (r, g, b))"
proof -
  assume bg: "Background (mem src) = Some (r, g, b)" and fg: "Foreground (mem src) = None"
    and res: "res = fst (getStyle L mem (calls L mem empty_cache qs) src)"
  have c: "chosen_rgb L (mem src) = (r, g, b)" using bg by (rule chosen_rgb_explicit)
  have 1: "rgb_of (style_bg (snd res)) = (r mod 256, g mod 256, b mod 256)"
    using c by (simp add: res getStyle_reachable fresh_bg fresh_fst rgb_of_RGB)
  have 2: "style_fg (snd res) =
     (if 50 \<le> perceivedLightness L r g b then RGB 0 0 0 else RGB 255 255 255)"
    using c fg by (simp add: res getStyle_reachable fresh_fg)
  have "0 \<le> r mod 256 \<and> r mod 256 < 256 \<and> 0 \<le> g mod 256 \<and> g mod 256 < 256 \<and>
        0 \<le> b mod 256 \<and> b mod 256 < 256" by simp
  then have 3: "\<not> (0 \<le> r \<and> r < 256 \<and> 0 \<le> g \<and> g < 256 \<and> 0 \<le> b \<and> b < 256) \<longrightarrow>
      (r mod 256, g mod 256, b mod 256) \<noteq> (r, g, b)"
    by (metis prod.inject)
  show ?thesis using 1 2 3 by simp
qed

theorem out_of_range_background_witness:
  "Background (example_mem 2) = Some (256, 256, 256) \<and> Foreground (example_mem 2) = None \<and>
   rgb_of (style_bg (snd (fst (getStyle ideal_libs example_mem empty_cache 2)))) = (0, 0, 0) \<and>
   style_fg (snd (fst (getStyle ideal_libs example_mem empty_cache 2))) = RGB 0 0 0 \<and>
   perceivedLightness ideal_libs 0 0 0 < 50"
  using out_of_range_background [of example_mem 2 256 256 256 _ ideal_libs "[]"] lightness_256
  by (simp add: example_mem_def src_c_def calls_def) (simp add: f64_defs ideal_libs_def)


section \<open>One turn of the loop\<close>

lemma wrap64_id: "- (2 ^ 63) \<le> x \<Longrightarrow> x < 2 ^ 63 \<Longrightarrow> wrap64 x = x"
  by (simp add: wrap64_def)

lemma line_body_ok: "Truncate s \<longrightarrow> 1 \<le> W \<Longrightarrow> line_body W s txt = Inr (rendered W s txt)"
  by (auto simp: line_body_def rendered_def)

lemma line_body_Inr: "line_body W s txt = Inr body \<Longrightarrow> body = rendered W s txt"
  by (auto simp: line_body_def rendered_def split: if_splits)

lemma print_header_change:
  "lastSource st \<noteq> Some p \<Longrightarrow>
   print_header L mem H st p =
     st\<lparr>colors := snd (getStyle L mem (colors st) p),
        stdout := stdout st @ header (fst (getStyle L mem (colors st) p)) (mem p),
        streak := 1\<rparr>"
  by (auto simp: print_header_def split: prod.splits)

lemma print_header_cont:
  "lastSource st = Some p \<Longrightarrow> wrap64 (streak st + 1) = H \<Longrightarrow>
   print_header L mem H st p =
     st\<lparr>colors := snd (getStyle L mem (colors st) p),
        stdout := stdout st @ header_cont (fst (getStyle L mem (colors st) p)) (mem p),
        streak := 1\<rparr>"
  by (simp add: print_header_def split: prod.splits)

lemma print_header_quiet:
  "lastSource st = Some p \<Longrightarrow> wrap64 (streak st + 1) \<noteq> H \<Longrightarrow>
   print_header L mem H st p = st\<lparr>streak := wrap64 (streak st + 1)\<rparr>"
  by (simp add: print_header_def)

lemma process_record_change:
  "lastSource st \<noteq> Some (Source r) \<Longrightarrow> Truncate (mem (Source r)) \<longrightarrow> 1 \<le> W \<Longrightarrow>
   process_record L mem W H st r =
     Inr (st\<lparr>colors := snd (getStyle L mem (colors st) (Source r)),
             stdout := stdout st @ header (fst (getStyle L mem (colors st) (Source r))) (mem (Source r))
                       @ [Println (rendered W (mem (Source r)) (Text (Line r)))],
             streak := 1, lastSource := Some (Source r)\<rparr>)"
  by (simp add: process_record_def print_header_change line_body_ok)

text \<open>
  The cache the renderer holds, whenever it is blocked or has returned, is the empty
  cache after a sequence of calls of \<^verbatim>\<open>getStyle\<close>: the theorems on colours, stated for
  such caches, cover every call the renderer makes.
\<close>

lemma calls_append: "calls L mem (calls L mem c qs) qs' = calls L mem c (qs @ qs')"
  by (simp add: calls_def)

lemma print_header_colors:
  "\<exists>qs. colors (print_header L mem H st p) = calls L mem (colors st) qs"
proof (cases "colors (print_header L mem H st p) = colors st")
  case True
  then have "colors (print_header L mem H st p) = calls L mem (colors st) []"
    by (simp add: calls_def)
  then show ?thesis ..
next
  case False
  then have "colors (print_header L mem H st p) = calls L mem (colors st) [p]"
    by (auto simp: print_header_def calls_def Let_def split: prod.splits if_splits)
  then show ?thesis ..
qed

lemma process_record_colors:
  assumes "process_record L mem W H st r = Inr st'"
  shows "\<exists>qs. colors st' = calls L mem (colors st) qs"
proof -
  from assms have "colors st' = colors (print_header L mem H st (Source r))"
    by (auto simp: process_record_def Let_def split: sum.splits)
  then show ?thesis using print_header_colors [of L mem H st "Source r"] by simp
qed

lemma writer_loop_colors:
  "writer_loop L mem W H st evs = Blocked st' \<or> writer_loop L mem W H st evs = Returned st' \<Longrightarrow>
   \<exists>qs. colors st' = calls L mem (colors st) qs"
proof (induction evs arbitrary: st)
  case Nil
  then have "colors st' = calls L mem (colors st) []" by (simp add: calls_def)
  then show ?case ..
next
  case (Cons ev evs)
  show ?case
  proof (cases ev)
    case Stop
    with Cons.prems have "colors st' = calls L mem (colors st) []" by (simp add: calls_def)
    then show ?thesis ..
  next
    case (Recv r)
    show ?thesis
    proof (cases "process_record L mem W H st r")
      case (Inl a)
      with Cons.prems Recv show ?thesis by (simp split: prod.splits)
    next
      case (Inr st1)
      with Cons.prems Recv have
        "writer_loop L mem W H st1 evs = Blocked st' \<or> writer_loop L mem W H st1 evs = Returned st'"
        by simp
      then obtain qs where qs: "colors st' = calls L mem (colors st1) qs"
        using Cons.IH by blast
      obtain qs1 where "colors st1 = calls L mem (colors st) qs1"
        using process_record_colors [OF Inr] by blast
      with qs have "colors st' = calls L mem (colors st) (qs1 @ qs)"
        by (simp add: calls_append)
      then show ?thesis ..
    qed
  qed
qed

lemma writer_colors:
  "writer L w mem evs = Blocked st' \<or> writer L w mem evs = Returned st' \<Longrightarrow>
   \<exists>qs. colors st' = calls L mem empty_cache qs"
proof (cases "getTerminalSize w")
  case (Inl e)
  assume "writer L w mem evs = Blocked st' \<or> writer L w mem evs = Returned st'"
  with Inl show ?thesis by (simp add: writer_def)
next
  case (Inr size)
  assume a: "writer L w mem evs = Blocked st' \<or> writer L w mem evs = Returned st'"
  obtain W H where "size = (W, H)" by (cases size)
  with a Inr have "writer_loop L mem W H init_state evs = Blocked st' \<or>
                   writer_loop L mem W H init_state evs = Returned st'"
    by (simp add: writer_def)
  then show ?thesis using writer_loop_colors [of L mem W H init_state evs st']
    by (simp add: init_state_def)
qed

text \<open>
  C7. Processing a record whose source is not the last rendered one prints the header
  (the name between two spaces in the style, the path after a space in the primary
  colour, a line break) before the body and leaves the streak at 1; this header is out
  even when the body then panics. After a record has been processed the last rendered
  source is that record's source.
\<close>

theorem header_on_change:
  "src = Source rec \<Longrightarrow> ps = fst (getStyle L mem (colors st) src) \<Longrightarrow>
   hdr = [StylePrintf (snd ps) ('' '' @ Name (mem src) @ '' ''),
          ColorPrintf (fst ps) ('' '' @ Path (mem src)), Println ''''] \<Longrightarrow>
   (\<forall>st'. process_record L mem W H st rec = Inr st' \<longrightarrow>
      lastSource st' = Some src \<and>
      (lastSource st \<noteq> Some src \<longrightarrow>
         streak st' = 1 \<and>
         stdout st' = stdout st @ hdr @ [Println (rendered W (mem src) (Text (Line rec)))])) \<and>
   (\<forall>e out. process_record L mem W H st rec = Inl (e, out) \<longrightarrow> lastSource st \<noteq> Some src \<longrightarrow>
      out = stdout st @ hdr)"
  by (auto simp: process_record_def Let_def print_header_change header_def
      split: sum.splits dest: line_body_Inr)

text \<open>
  C8. When the stop branch is taken the renderer returns with the state it had, whatever
  events were still to come: after any records processed before, the outcome is the
  state those records left, and the output is what they had printed.
\<close>

theorem stop_ends_rendering:
  "writer_loop L mem W H st (Stop # evs) = Returned st \<and>
   writer_loop L mem W H st (map Recv rs @ Stop # evs) =
     (case writer_loop L mem W H st (map Recv rs) of
        Blocked st' \<Rightarrow> Returned st'
      | Returned st' \<Rightarrow> Returned st'
      | Panicked e out \<Rightarrow> Panicked e out) \<and>
   final_stdout (writer_loop L mem W H st (map Recv rs @ Stop # evs)) =
     final_stdout (writer_loop L mem W H st (map Recv rs))"
proof -
  have run: "writer_loop L mem W H st (map Recv rs @ Stop # evs) =
     (case writer_loop L mem W H st (map Recv rs) of
        Blocked st' \<Rightarrow> Returned st'
      | Returned st' \<Rightarrow> Returned st'
      | Panicked e out \<Rightarrow> Panicked e out)"
    by (induction rs arbitrary: st) (simp_all split: sum.splits prod.splits)
  then have "final_stdout (writer_loop L mem W H st (map Recv rs @ Stop # evs)) =
     final_stdout (writer_loop L mem W H st (map Recv rs))"
    by (cases "writer_loop L mem W H st (map Recv rs)") simp_all
  with run show ?thesis by simp
qed

section \<open>Counting headers\<close>

lemma ceil_div_nat:
  "0 < m \<Longrightarrow> (n + m - 1) div m = (if n mod m = 0 then n div m else Suc (n div m))"
proof -
  assume m: "0 < m"
  define q r where "q = n div m" and "r = n mod m"
  have n: "n = r + q * m" and r: "r < m" using m by (simp_all add: q_def r_def)
  show ?thesis
  proof (cases "r = 0")
    case True
    then have "n + m - 1 = (m - 1) + q * m" using n m by simp
    then have "(n + m - 1) div m = ((m - 1) + q * m) div m" by simp
    also have "\<dots> = q + (m - 1) div m" using m by (subst div_mult_self1) simp_all
    finally show ?thesis using True m by (simp add: q_def r_def)
  next
    case False
    then have "n + m - 1 = (r - 1) + Suc q * m" using n m by simp
    then have "(n + m - 1) div m = ((r - 1) + Suc q * m) div m" by simp
    also have "\<dots> = Suc q + (r - 1) div m" using m by (subst div_mult_self1) simp_all
    finally show ?thesis using False r by (simp add: q_def r_def)
  qed
qed

lemma ceil_step:
  assumes "0 < m"
  shows "(Suc n + m - 1) div m = (n + m - 1) div m + (if n mod m = 0 then 1 else 0)"
proof -
  have a: "(n + m - 1) div m = (if n mod m = 0 then n div m else Suc (n div m))"
    using assms by (rule ceil_div_nat)
  have b: "(Suc n + m - 1) div m = (if Suc n mod m = 0 then Suc n div m else Suc (Suc n div m))"
    using assms by (rule ceil_div_nat)
  show ?thesis
  proof (cases "m = 1")
    case True
    then show ?thesis by simp
  next
    case False
    then have m2: "2 \<le> m" using assms by simp
    show ?thesis
    proof (cases "n mod m = 0")
      case True
      then have "Suc n mod m = 1" using m2 by (simp add: mod_Suc)
      moreover have "Suc n div m = n div m" using True m2 by (simp add: div_Suc mod_Suc)
      ultimately show ?thesis using a b True by simp
    next
      case False
      show ?thesis
      proof (cases "Suc (n mod m) = m")
        case True
        then have "Suc n mod m = 0" by (simp add: mod_Suc)
        moreover have "Suc n div m = Suc (n div m)" using True by (simp add: div_Suc mod_Suc)
        ultimately show ?thesis using a b False by simp
      next
        case F2: False
        then have "Suc n mod m \<noteq> 0" by (simp add: mod_Suc)
        moreover have "Suc n div m = n div m" using F2 by (simp add: div_Suc mod_Suc)
        ultimately show ?thesis using a b False by simp
      qed
    qed
  qed
qed

lemma count_multiples:
  "0 < m \<Longrightarrow> length (filter (\<lambda>j. j mod m = 0) [0..<n]) = (n + m - 1) div m"
proof (induction n)
  case 0
  then show ?case by simp
next
  case (Suc n)
  then show ?case by (simp only: ceil_step) simp
qed

lemma ceil_div: "0 < m \<Longrightarrow> int ((n + m - 1) div m) = \<lceil>real n / real m\<rceil>"
proof -
  assume m: "0 < m"
  have "\<lceil>real n / real m\<rceil> = \<lceil>of_int (int n) / (of_int (int m) :: real)\<rceil>" by simp
  also have "\<dots> = - (- int n div int m)" by (rule ceiling_divide_eq_div)
  also have "\<dots> = (if int n mod int m = 0 then int n div int m else int n div int m + 1)"
    using m by (simp add: zdiv_zminus1_eq_if)
  also have "\<dots> = int (if n mod m = 0 then n div m else Suc (n div m))"
    by (simp flip: of_nat_mod of_nat_div)
  finally show ?thesis using m by (simp only: ceil_div_nat)
qed

lemma filter_upt_step:
  "length (filter P [i..<i + Suc n]) =
     (if P i then 1 else 0) + length (filter P [Suc i..<Suc i + n])"
proof -
  have "[i..<Suc (i + n)] = i # [Suc i..<Suc (i + n)]"
    by (rule upt_conv_Cons) simp
  then show ?thesis by (simp del: upt_Suc)
qed

lemma count_cadence:
  "length (filter is_header (cadence ps s H i bs)) =
   length (filter (\<lambda>j. j mod nat (H - 1) = 0) [i..<i + length bs])"
proof (induction bs arbitrary: i)
  case Nil
  then show ?case by simp
next
  case (Cons b bs)
  have hd: "length (filter is_header
               (if i = 0 then header ps s
                else if i mod nat (H - 1) = 0 then header_cont ps s else [])) =
            (if i mod nat (H - 1) = 0 then 1 else 0)"
    by (simp add: header_def header_cont_def)
  have "length (filter is_header (cadence ps s H i (b # bs))) =
          (if i mod nat (H - 1) = 0 then 1 else 0) +
          length (filter is_header (cadence ps s H (Suc i) bs))"
    using hd by (simp del: upt_Suc)
  also have "\<dots> = (if i mod nat (H - 1) = 0 then 1 else 0) +
          length (filter (\<lambda>j. j mod nat (H - 1) = 0) [Suc i..<Suc i + length bs])"
    by (simp only: Cons.IH)
  also have "\<dots> = length (filter (\<lambda>j. j mod nat (H - 1) = 0) [i..<i + Suc (length bs)])"
    by (simp only: filter_upt_step)
  finally show ?case by (simp only: list.size(4)) simp
qed

lemma count_headers:
  assumes "2 \<le> H"
  shows "int (length (filter is_header (cadence ps s H 0 bs))) =
         \<lceil>real (length bs) / real_of_int (H - 1)\<rceil>"
proof -
  define m where "m = nat (H - 1)"
  have m: "0 < m" using assms by (simp add: m_def)
  have r: "real m = real_of_int (H - 1)" using assms by (simp add: m_def)
  have "length (filter is_header (cadence ps s H 0 bs)) =
          length (filter (\<lambda>j. j mod m = 0) [0..<0 + length bs])"
    unfolding m_def by (rule count_cadence)
  also have "\<dots> = (length bs + m - 1) div m"
    using count_multiples [OF m, of "length bs"] by simp
  finally have "int (length (filter is_header (cadence ps s H 0 bs))) =
          int ((length bs + m - 1) div m)" by (simp only:)
  also have "\<dots> = \<lceil>real (length bs) / real m\<rceil>" using m by (rule ceil_div)
  finally show ?thesis by (simp only: r)
qed

section \<open>A run of records of one source\<close>

lemma run_same:
  assumes H: "0 \<le> H" "H < 2 ^ 63" and W: "Truncate (mem p) \<longrightarrow> 1 \<le> W"
  shows "\<forall>r\<in>set rs. Source r = p \<Longrightarrow> lastSource st = Some p \<Longrightarrow>
         streak st = int (n mod nat (H - 1)) + 1 \<Longrightarrow>
         2 \<le> H \<or> int n + int (length rs) + 1 < 2 ^ 63 \<Longrightarrow>
         getStyle L mem (colors st) p = (ps, colors st) \<Longrightarrow>
         \<exists>st'. writer_loop L mem W H st (map Recv rs) = Blocked st' \<and>
               stdout st' = stdout st @ cadence ps (mem p) H (Suc n)
                                          (map (\<lambda>r. rendered W (mem p) (Text (Line r))) rs)"
proof (induction rs arbitrary: st n)
  case Nil
  then show ?case by simp
next
  case (Cons r rs)
  let ?m = "nat (H - 1)"
  have src: "Source r = p" using Cons.prems(1) by simp
  have bound: "int (n mod ?m) + 2 < 2 ^ 63"
  proof (cases "2 \<le> H")
    case True
    then have "n mod ?m < ?m" by simp
    then have "int (n mod ?m) < H - 1" using True by linarith
    then show ?thesis using H(2) by linarith
  next
    case False
    then have "?m = 0" using H by simp
    then show ?thesis using Cons.prems(4) False by simp
  qed
  have w: "wrap64 (streak st + 1) = int (n mod ?m) + 2"
    using bound Cons.prems(3) by (simp add: wrap64_id)
  have eqH: "(int (n mod ?m) + 2 = H) = (Suc n mod ?m = 0)"
  proof (cases "2 \<le> H")
    case True
    then have m: "int ?m = H - 1" "0 < ?m" by simp_all
    have "(Suc n mod ?m = 0) = (Suc (n mod ?m) = ?m)"
      using m(2) by (simp add: mod_Suc)
    also have "\<dots> = (int (n mod ?m) + 1 = int ?m)" by linarith
    also have "\<dots> = (int (n mod ?m) + 2 = H)" using m(1) by linarith
    finally show ?thesis by simp
  next
    case False
    then have "?m = 0" using H by simp
    then show ?thesis using False H by simp
  qed
  have nxt: "Suc n mod ?m \<noteq> 0 \<Longrightarrow> int (n mod ?m) + 2 = int (Suc n mod ?m) + 1"
    by (cases "?m = 0") (auto simp: mod_Suc split: if_splits)
  define st1 where "st1 = print_header L mem H st p"
  have st1: "lastSource st1 = Some p \<and> streak st1 = int (Suc n mod ?m) + 1 \<and>
             getStyle L mem (colors st1) p = (ps, colors st1) \<and>
             stdout st1 = stdout st @ (if Suc n mod ?m = 0 then header_cont ps (mem p) else [])"
  proof (cases "Suc n mod ?m = 0")
    case True
    then have "wrap64 (streak st + 1) = H" using w eqH by simp
    then show ?thesis
      using True Cons.prems(2,5) by (simp add: st1_def print_header_cont)
  next
    case False
    then have "wrap64 (streak st + 1) \<noteq> H" using w eqH by simp
    then show ?thesis
      using False Cons.prems(2,5) w nxt by (simp add: st1_def print_header_quiet)
  qed
  define st2 where
    "st2 = st1\<lparr>stdout := stdout st1 @ [Println (rendered W (mem p) (Text (Line r)))],
               lastSource := Some p\<rparr>"
  have step: "process_record L mem W H st r = Inr st2"
    using W by (simp add: process_record_def src line_body_ok st1_def st2_def Let_def)
  have "\<exists>st'. writer_loop L mem W H st2 (map Recv rs) = Blocked st' \<and>
          stdout st' = stdout st2 @ cadence ps (mem p) H (Suc (Suc n))
                                     (map (\<lambda>r. rendered W (mem p) (Text (Line r))) rs)"
  proof (rule Cons.IH)
    show "\<forall>r\<in>set rs. Source r = p" using Cons.prems(1) by simp
    show "lastSource st2 = Some p" by (simp add: st2_def)
    show "streak st2 = int (Suc n mod ?m) + 1" using st1 by (simp add: st2_def)
    show "2 \<le> H \<or> int (Suc n) + int (length rs) + 1 < 2 ^ 63" using Cons.prems(4) by auto
    show "getStyle L mem (colors st2) p = (ps, colors st2)" using st1 by (simp add: st2_def)
  qed
  then show ?case using step st1 by (auto simp: st2_def)
qed

lemma run_change:
  assumes H: "0 \<le> H" "H < 2 ^ 63" and W: "Truncate (mem p) \<longrightarrow> 1 \<le> W"
    and rs: "\<forall>r\<in>set rs. Source r = p" and st: "lastSource st \<noteq> Some p"
    and n: "2 \<le> H \<or> int (length rs) < 2 ^ 63"
  shows "\<exists>st'. writer_loop L mem W H st (map Recv rs) = Blocked st' \<and>
               stdout st' = stdout st @ cadence (fst (getStyle L mem (colors st) p)) (mem p) H 0
                                          (map (\<lambda>r. rendered W (mem p) (Text (Line r))) rs)"
proof (cases rs)
  case Nil
  then show ?thesis by simp
next
  case (Cons r rs')
  let ?ps = "fst (getStyle L mem (colors st) p)"
  have src: "Source r = p" using rs Cons by simp
  define st2 where
    "st2 = st\<lparr>colors := snd (getStyle L mem (colors st) p),
              stdout := stdout st @ header ?ps (mem p)
                        @ [Println (rendered W (mem p) (Text (Line r)))],
              streak := 1, lastSource := Some p\<rparr>"
  have step: "process_record L mem W H st r = Inr st2"
    using process_record_change [of st r mem W L H] st W by (simp add: src st2_def)
  have "\<exists>st'. writer_loop L mem W H st2 (map Recv rs') = Blocked st' \<and>
          stdout st' = stdout st2 @ cadence ?ps (mem p) H (Suc 0)
                                     (map (\<lambda>r. rendered W (mem p) (Text (Line r))) rs')"
  proof (rule run_same [where mem = mem and p = p and H = H and W = W, OF H W])
    show "\<forall>r\<in>set rs'. Source r = p" using rs Cons by simp
    show "lastSource st2 = Some p" by (simp add: st2_def)
    show "streak st2 = int (0 mod nat (H - 1)) + 1" by (simp add: st2_def)
    show "2 \<le> H \<or> int 0 + int (length rs') + 1 < 2 ^ 63" using n Cons by auto
    show "getStyle L mem (colors st2) p = (?ps, colors st2)"
      by (simp add: st2_def getStyle_idem)
  qed
  then show ?thesis using step Cons by (auto simp: st2_def)
qed

text \<open>
  On a terminal of height 0 or 1 the incremented streak never equals the height: the
  layout of \<open>run_change\<close> then has the plain header of the first record and no other.
\<close>

lemma one_row_terminal:
  assumes "H \<le> 1"
  shows "length (filter is_header (cadence ps s H 0 bs)) = (if bs = [] then 0 else 1)"
proof -
  have m: "nat (H - 1) = 0" using assms by simp
  have "filter (\<lambda>j. j mod nat (H - 1) = 0) [0..<n] = (if n = 0 then [] else [0])" for n
    by (induction n) (simp_all add: m)
  then show ?thesis by (simp add: count_cadence)
qed

text \<open>
  A captured width or height is a 16-bit number, so the bound on the height in the
  theorem below holds for every terminal.
\<close>

lemma getTerminalSize_bounds:
  assumes "getTerminalSize w = Inr (W, H)"
  shows "0 \<le> W \<and> W < 2 ^ 16 \<and> 0 \<le> H \<and> H < 2 ^ 16"
proof (cases "IoctlGetWinsize w")
  case (Inl e)
  with assms show ?thesis by (simp add: getTerminalSize_def)
next
  case (Inr ws)
  with assms have "W = uint (Col ws)" "H = uint (Row ws)"
    by (simp_all add: getTerminalSize_def)
  moreover have "uint (Col ws) < 2 ^ 16" "uint (Row ws) < 2 ^ 16"
    using uint_bounded [of "Col ws"] uint_bounded [of "Row ws"] by simp_all
  ultimately show ?thesis by simp
qed

text \<open>
  C1, as amended. With a terminal height \<open>H\<close> of at least 2, a run of \<open>N\<close> records of
  one source that starts after a record of another source (or at the start), and whose
  lines do not hit the width-0 truncation panic, prints a header exactly
  \<open>\<lceil>N / (H - 1)\<rceil>\<close> times: the plain header before the first record and the
  continuation header before every \<open>(H - 1)\<close>-th record after it.
\<close>

theorem header_cadence:
  assumes "2 \<le> H" and "H < 2 ^ 63"
    and "\<forall>r\<in>set rs. Source r = p"
    and "lastSource st \<noteq> Some p"
    and "Truncate (mem p) \<longrightarrow> 1 \<le> W"
    and "ps = fst (getStyle L mem (colors st) p)"
    and "bodies = map (\<lambda>r. rendered W (mem p) (Text (Line r))) rs"
  shows "\<exists>st'. writer_loop L mem W H st (map Recv rs) = Blocked st' \<and>
               stdout st' = stdout st @ cadence ps (mem p) H 0 bodies \<and>
               int (length (filter is_header (cadence ps (mem p) H 0 bodies))) =
                 \<lceil>real (length rs) / real_of_int (H - 1)\<rceil>"
proof -
  have "0 \<le> H" using assms(1) by simp
  then have "\<exists>st'. writer_loop L mem W H st (map Recv rs) = Blocked st' \<and>
               stdout st' = stdout st @ cadence ps (mem p) H 0 bodies"
    unfolding assms(6,7) using assms(1-5) by (intro run_change) simp_all
  moreover have "int (length (filter is_header (cadence ps (mem p) H 0 bodies))) =
                 \<lceil>real (length rs) / real_of_int (H - 1)\<rceil>"
    using count_headers [OF assms(1), of ps "mem p" bodies] by (simp add: assms(7))
  ultimately show ?thesis by blast
qed

subsection \<open>Seven lines on a terminal of height 3\<close>

lemma init_style_a: "fst (getStyle ideal_libs example_mem (colors init_state) 0) = style_a"
  by (simp add: init_state_def empty_cache_def getStyle_miss example_mem_def fresh_src_a style_a_def)

lemma init_style_b: "fst (getStyle ideal_libs example_mem (colors init_state) 1) = style_b"
  by (simp add: init_state_def empty_cache_def getStyle_miss example_mem_def fresh_src_b style_b_def)

lemma cadence_seven:
  "cadence style_a src_a 3 0 [''one'', ''two'', ''three'', ''four'', ''five'', ''six'', ''seven''] =
     header style_a src_a @ [Println ''one'', Println ''two''] @
     header_cont style_a src_a @ [Println ''three'', Println ''four''] @
     header_cont style_a src_a @ [Println ''five'', Println ''six''] @
     header_cont style_a src_a @ [Println ''seven'']"
  by code_simp


lemma seven_run:
  "\<exists>st'. writer_loop ideal_libs example_mem 80 3 init_state (map Recv seven) = Blocked st' \<and>
         stdout st' =
           header style_a src_a @ [Println ''one'', Println ''two''] @
           header_cont style_a src_a @ [Println ''three'', Println ''four''] @
           header_cont style_a src_a @ [Println ''five'', Println ''six''] @
           header_cont style_a src_a @ [Println ''seven'']"
proof -
  have run: "\<exists>st'. writer_loop ideal_libs example_mem 80 3 init_state (map Recv seven) = Blocked st' \<and>
          stdout st' = stdout init_state @
            cadence (fst (getStyle ideal_libs example_mem (colors init_state) 0)) (example_mem 0) 3 0
              (map (\<lambda>r. rendered 80 (example_mem 0) (Text (Line r))) seven)"
    by (rule run_change) (simp_all add: seven_def line_def init_state_def example_mem_def src_a_def)
  have mem: "example_mem 0 = src_a" by (simp add: example_mem_def)
  have bodies: "map (\<lambda>r. rendered 80 src_a (Text (Line r))) seven =
      [''one'', ''two'', ''three'', ''four'', ''five'', ''six'', ''seven'']"
    by (simp add: seven_def line_def rendered_def src_a_def)
  have out: "stdout init_state = []" by (simp add: init_state_def)
  show ?thesis
    using run by (simp only: mem bodies out init_style_a cadence_seven append_Nil)
qed

text \<open>
  The amended cadence at height 3: seven lines carry headers before the lines 1, 3, 5
  and 7, four in all.
\<close>

theorem header_cadence_witness:
  "\<exists>st'. writer_loop ideal_libs example_mem 80 3 init_state (map Recv seven) = Blocked st' \<and>
         stdout st' =
           header style_a src_a @ [Println ''one'', Println ''two''] @
           header_cont style_a src_a @ [Println ''three'', Println ''four''] @
           header_cont style_a src_a @ [Println ''five'', Println ''six''] @
           header_cont style_a src_a @ [Println ''seven''] \<and>
         int (length (filter is_header (stdout st'))) = \<lceil>7 / 2 :: real\<rceil> \<and>
         \<lceil>7 / 2 :: real\<rceil> = 4"
proof -
  have mem: "example_mem 0 = src_a" by (simp add: example_mem_def)
  have bodies: "map (\<lambda>r. rendered 80 src_a (Text (Line r))) seven =
      [''one'', ''two'', ''three'', ''four'', ''five'', ''six'', ''seven'']"
    by (simp add: seven_def line_def rendered_def src_a_def)
  have out: "stdout init_state = []" by (simp add: init_state_def)
  have len: "real (length seven) / real_of_int (3 - 1) = 7 / 2" by (simp add: seven_def)
  have "\<exists>st'. writer_loop ideal_libs example_mem 80 3 init_state (map Recv seven) = Blocked st' \<and>
          stdout st' = stdout init_state @ cadence style_a (example_mem 0) 3 0
                         [''one'', ''two'', ''three'', ''four'', ''five'', ''six'', ''seven''] \<and>
          int (length (filter is_header (cadence style_a (example_mem 0) 3 0
                         [''one'', ''two'', ''three'', ''four'', ''five'', ''six'', ''seven'']))) =
            \<lceil>real (length seven) / real_of_int (3 - 1)\<rceil>"
  proof (rule header_cadence [where p = 0])
    show "\<forall>r\<in>set seven. Source r = 0" by (simp add: seven_def line_def)
    show "lastSource init_state \<noteq> Some 0" by (simp add: init_state_def)
    show "Truncate (example_mem 0) \<longrightarrow> 1 \<le> (80::int)" by simp
    show "style_a = fst (getStyle ideal_libs example_mem (colors init_state) 0)"
      by (simp only: init_style_a)
    show "[''one'', ''two'', ''three'', ''four'', ''five'', ''six'', ''seven''] =
          map (\<lambda>r. rendered 80 (example_mem 0) (Text (Line r))) seven"
      by (simp only: mem bodies)
  qed simp_all
  then obtain st' where
    "writer_loop ideal_libs example_mem 80 3 init_state (map Recv seven) = Blocked st' \<and>
     stdout st' =
       header style_a src_a @ [Println ''one'', Println ''two''] @
       header_cont style_a src_a @ [Println ''three'', Println ''four''] @
       header_cont style_a src_a @ [Println ''five'', Println ''six''] @
       header_cont style_a src_a @ [Println ''seven''] \<and>
     int (length (filter is_header (stdout init_state @ cadence style_a (example_mem 0) 3 0
                         [''one'', ''two'', ''three'', ''four'', ''five'', ''six'', ''seven'']))) = \<lceil>7 / 2 :: real\<rceil>"
    by (simp only: mem out len cadence_seven append_Nil) blast
  then have
    "writer_loop ideal_libs example_mem 80 3 init_state (map Recv seven) = Blocked st' \<and>
     stdout st' =
       header style_a src_a @ [Println ''one'', Println ''two''] @
       header_cont style_a src_a @ [Println ''three'', Println ''four''] @
       header_cont style_a src_a @ [Println ''five'', Println ''six''] @
       header_cont style_a src_a @ [Println ''seven''] \<and>
     int (length (filter is_header (stdout st'))) = \<lceil>7 / 2 :: real\<rceil>"
    by (simp only: mem out cadence_seven append_Nil)
  moreover have "\<lceil>7 / 2 :: real\<rceil> = 4" by simp
  ultimately show ?thesis by blast
qed

text \<open>
  C1 as stated fails: on a terminal of height 3 the seven lines get four headers, before
  the lines 1, 3, 5 and 7, not the three headers before the lines 1, 4 and 7.
\<close>

theorem header_cadence_counterexample:
  "final_stdout (writer ideal_libs (example_world 80 3) example_mem (map Recv seven)) =
     header style_a src_a @ [Println ''one'', Println ''two''] @
     header_cont style_a src_a @ [Println ''three'', Println ''four''] @
     header_cont style_a src_a @ [Println ''five'', Println ''six''] @
     header_cont style_a src_a @ [Println ''seven''] \<and>
   int (length (filter is_header
          (final_stdout (writer ideal_libs (example_world 80 3) example_mem (map Recv seven))))) \<noteq>
     \<lceil>7 / 3 :: real\<rceil>"
proof -
  have w: "writer ideal_libs (example_world 80 3) example_mem (map Recv seven) =
           writer_loop ideal_libs example_mem 80 3 init_state (map Recv seven)"
    by (simp add: writer_def getTerminalSize_def example_world_def)
  obtain st' where st': "writer_loop ideal_libs example_mem 80 3 init_state (map Recv seven) = Blocked st'"
    "stdout st' =
           header style_a src_a @ [Println ''one'', Println ''two''] @
           header_cont style_a src_a @ [Println ''three'', Println ''four''] @
           header_cont style_a src_a @ [Println ''five'', Println ''six''] @
           header_cont style_a src_a @ [Println ''seven'']"
    using seven_run by blast
  have "int (length (filter is_header (stdout st'))) = 4"
    by (simp add: st'(2) header_def header_cont_def)
  moreover have "\<lceil>7 / 3 :: real\<rceil> = 3" by simp
  ultimately show ?thesis by (simp add: w st')
qed

subsection \<open>Instances for the loop\<close>

theorem header_on_change_witness:
  "\<exists>st'. process_record ideal_libs example_mem 80 24 init_state (line 0 ''hello'') = Inr st' \<and>
         lastSource st' = Some 0 \<and> streak st' = 1 \<and>
         stdout st' =
           [StylePrintf (NewRGBStyle (RGB 255 255 255) (RGB 0 0 0)) '' a '',
            ColorPrintf (RGB 0 0 0) '' /tmp/a.log'', Println '''', Println ''hello'']"
proof -
  have src: "Source (line 0 ''hello'') = 0" "Text (Line (line 0 ''hello'')) = ''hello''"
    by (simp_all add: line_def)
  have "lastSource init_state \<noteq> Some (Source (line 0 ''hello''))" by (simp add: init_state_def)
  moreover have "Truncate (example_mem (Source (line 0 ''hello''))) \<longrightarrow> 1 \<le> (80::int)" by simp
  ultimately obtain st' where
    st': "process_record ideal_libs example_mem 80 24 init_state (line 0 ''hello'') = Inr st'"
    using process_record_change [of init_state "line 0 ''hello''" example_mem 80 ideal_libs 24]
    by blast
  have last: "lastSource init_state \<noteq> Some 0" by (simp add: init_state_def)
  have "lastSource st' = Some 0 \<and> streak st' = 1 \<and>
        stdout st' = stdout init_state @
          [StylePrintf (snd style_a) ('' '' @ Name (example_mem 0) @ '' ''),
           ColorPrintf (fst style_a) ('' '' @ Path (example_mem 0)), Println '''']
          @ [Println (rendered 80 (example_mem 0) ''hello'')]"
    using header_on_change [of 0 "line 0 ''hello''" style_a ideal_libs example_mem init_state _
        80 24, OF src(1) [symmetric] init_style_a [symmetric] refl] st' last
    by (simp add: src)
  then show ?thesis using st'
    by (simp add: style_a_def example_mem_def src_a_def rendered_def init_state_def)
qed

theorem stop_ends_rendering_witness:
  "writer_loop ideal_libs example_mem 80 3 init_state
     (map Recv seven @ Stop # [Recv (line 1 ''late''), Recv (line 0 ''later'')]) =
   writer_loop ideal_libs example_mem 80 3 init_state (map Recv seven @ [Stop]) \<and>
   final_stdout (writer_loop ideal_libs example_mem 80 3 init_state
     (map Recv seven @ Stop # [Recv (line 1 ''late''), Recv (line 0 ''later'')])) =
   final_stdout (writer_loop ideal_libs example_mem 80 3 init_state (map Recv seven))"
proof -
  obtain st' where st': "writer_loop ideal_libs example_mem 80 3 init_state (map Recv seven) = Blocked st'"
    using seven_run by blast
  show ?thesis
    using stop_ends_rendering [where L = ideal_libs and mem = example_mem and W = 80 and H = 3
        and st = init_state and rs = seven
        and evs = "[Recv (line 1 ''late''), Recv (line 0 ''later'')]"]
      stop_ends_rendering [where L = ideal_libs and mem = example_mem and W = 80 and H = 3
        and st = init_state and rs = seven and evs = "[]"]
    by (simp add: st')
qed

section \<open>Truncation\<close>

text \<open>
  On a terminal at least one column wide, or for a source that does not truncate, the
  body is printed as the specification says: the first \<open>W - 1\<close> bytes of a line of at
  least \<open>W\<close> bytes when the source truncates, the whole line otherwise.
\<close>

lemma truncation:
  assumes "1 \<le> W \<or> \<not> Truncate (mem (Source rec))"
    and "s = mem (Source rec)" and "txt = Text (Line rec)"
  shows "\<exists>st'. process_record L mem W H st rec = Inr st' \<and>
           stdout st' = stdout (print_header L mem H st (Source rec)) @
             [Println (if Truncate s then (if W \<le> int (length txt) then take (nat (W - 1)) txt else txt)
                       else txt)]"
  using assms by (auto simp: process_record_def Let_def line_body_def)

text \<open>
  The scenario of the specification: width 10, the first source prints \<open>hello\<close> in
  full and the truncating second source prints the first nine bytes of its line.
\<close>

lemma width_ten_scenario:
  "writer ideal_libs (example_world 10 24) example_mem
     [Recv (line 0 ''hello''), Recv (line 1 ''abcdefghijkl'')] =
   Blocked \<lparr>lastSource = Some 1, streak = 1,
            colors = calls ideal_libs example_mem empty_cache [0, 1],
            stdout = header style_a src_a @ [Println ''hello''] @
                     header style_b src_b @ [Println ''abcdefghi'']\<rparr>"
proof -
  let ?c1 = "calls ideal_libs example_mem empty_cache [0]"
  let ?st1 = "\<lparr>lastSource = Some 0, streak = 1, colors = ?c1,
               stdout = header style_a src_a @ [Println ''hello'']\<rparr>"
  have m: "example_mem 0 = src_a" "example_mem 1 = src_b" by (simp_all add: example_mem_def)
  have s0: "Source (line 0 ''hello'') = 0" "Text (Line (line 0 ''hello'')) = ''hello''"
    and s1: "Source (line 1 ''abcdefghijkl'') = 1"
      "Text (Line (line 1 ''abcdefghijkl'')) = ''abcdefghijkl''"
    by (simp_all add: line_def)
  have r0: "rendered 10 src_a ''hello'' = ''hello''"
    and r1: "rendered 10 src_b ''abcdefghijkl'' = ''abcdefghi''"
    by (simp_all add: rendered_def src_a_def src_b_def)
  have g1: "fst (getStyle ideal_libs example_mem ?c1 1) = style_b"
    by (simp only: getStyle_reachable m fresh_src_b style_b_def)
  have c2: "snd (getStyle ideal_libs example_mem ?c1 1) =
            calls ideal_libs example_mem empty_cache [0, 1]"
    by (simp add: calls_def)
  have c1: "snd (getStyle ideal_libs example_mem (colors init_state) 0) = ?c1"
    by (simp add: calls_def init_state_def)
  have p0: "process_record ideal_libs example_mem 10 24 init_state (line 0 ''hello'') = Inr ?st1"
    using process_record_change [of init_state "line 0 ''hello''" example_mem 10 ideal_libs 24]
    by (simp only: s0 m r0 init_style_a c1) (simp add: init_state_def src_a_def)
  have p1: "process_record ideal_libs example_mem 10 24 ?st1 (line 1 ''abcdefghijkl'') =
            Inr \<lparr>lastSource = Some 1, streak = 1,
                 colors = calls ideal_libs example_mem empty_cache [0, 1],
                 stdout = header style_a src_a @ [Println ''hello''] @
                          header style_b src_b @ [Println ''abcdefghi'']\<rparr>"
    using process_record_change [of ?st1 "line 1 ''abcdefghijkl''" example_mem 10 ideal_libs 24]
    by (simp only: s1 m r1) (simp add: g1 c2 del: One_nat_def)
  show ?thesis
    by (simp add: writer_def getTerminalSize_def example_world_def p0 p1 del: One_nat_def)
qed

text \<open>
  C2, at the input where the code departs from it. The ioctl can report a width of 0
  columns. Every line is then at least as long as the width, the slice expression asks
  for the bytes up to index -1, and the renderer panics after the header instead of
  printing a truncated line.
\<close>

theorem truncate_zero_width_panics:
  "writer ideal_libs (example_world 0 24) example_mem [Recv (line 1 ''hello'')] =
     Panicked (SliceBoundsOutOfRange (- 1)) (header style_b src_b)"
proof -
  have ne: "lastSource init_state \<noteq> Some 1" by (simp add: init_state_def)
  have "stdout (print_header ideal_libs example_mem 24 init_state 1) =
          stdout init_state @ header style_b (example_mem 1)"
    by (simp only: print_header_change [OF ne] init_style_b) simp
  then have out: "stdout (print_header ideal_libs example_mem 24 init_state 1) =
          header style_b src_b"
    by (simp add: init_state_def example_mem_def)
  have lb: "line_body 0 (example_mem 1) ''hello'' = Inl (SliceBoundsOutOfRange (- 1))"
    by (simp add: line_body_def example_mem_def src_b_def)
  have src: "Source (line 1 ''hello'') = 1" "Text (Line (line 1 ''hello'')) = ''hello''"
    by (simp_all add: line_def)
  have "process_record ideal_libs example_mem 0 24 init_state (line 1 ''hello'') =
          Inl (SliceBoundsOutOfRange (- 1), header style_b src_b)"
    by (simp add: process_record_def src lb out del: One_nat_def)
  then show ?thesis
    by (simp add: writer_def getTerminalSize_def example_world_def)
qed

section \<open>Start-up\<close>

lemma tail_sources_all:
  "tail_sources w i (map Some srcs) files out =
     Inr (files @ followed w i srcs, out @ diagnostics w srcs)"
  by (induction srcs arbitrary: i files out)
    (simp_all add: followed_def diagnostics_def split: sum.splits)

lemma set_followed:
  "set (followed w 0 srcs) = {i. i < length srcs \<and> \<not> isl (TailFile w (Path (srcs ! i)))}"
  by (auto simp: followed_def in_set_enumerate_eq image_iff)

lemma length_diagnostics:
  "length (diagnostics w srcs) = length (filter (\<lambda>s. isl (TailFile w (Path s))) srcs)"
  by (induction srcs) (simp_all add: diagnostics_def split: sum.splits)

text \<open>
  C9. A configuration that cannot be loaded ends the process through \<^verbatim>\<open>log.Fatal\<close>.
  With a configuration loaded, a source whose path cannot be followed costs one
  diagnostic line and is left out, and every other source gets its producer goroutine; a
  failing terminal-size query then still kills the whole process with a panic.
\<close>

theorem failure_severity:
  "(loadConfig w ''nexus.json'' = Inl err \<longrightarrow> main w = Fatal err) \<and>
   (loadConfig w ''nexus.json'' = Inr (Some cfg) \<and> Sources cfg = map Some srcs \<longrightarrow>
      (\<forall>e. IoctlGetWinsize w = Inl e \<longrightarrow> main w = Crashed e (diagnostics w srcs)) \<and>
      (\<forall>ws. IoctlGetWinsize w = Inr ws \<longrightarrow>
         main w = Started (followed w 0 srcs) (diagnostics w srcs) (uint (Col ws), uint (Row ws))) \<and>
      set (followed w 0 srcs) = {i. i < length srcs \<and> \<not> isl (TailFile w (Path (srcs ! i)))} \<and>
      length (diagnostics w srcs) = length (filter (\<lambda>s. isl (TailFile w (Path s))) srcs))"
  by (simp add: main_def tail_sources_all getTerminalSize_def set_followed length_diagnostics)

theorem failure_severity_witness:
  "main (example_world 80 24) =
     Started [0, 2] [Println ''>>>>>>>>>>>>>>>>>>>>> error  permission denied''] (80, 24) \<and>
   main ((example_world 80 24)\<lparr>IoctlGetWinsize := Inl (Err ''inappropriate ioctl for device'')\<rparr>) =
     Crashed (Err ''inappropriate ioctl for device'')
       [Println ''>>>>>>>>>>>>>>>>>>>>> error  permission denied''] \<and>
   main ((example_world 80 24)\<lparr>ReadFile := \<lambda>f. Inl (Err ''no such file'')\<rparr>) =
     Fatal (Err ''no such file'')"
proof -
  let ?srcs = "[src_a, src_b, src_c]"
  let ?cfg = "\<lparr>Sources = map Some ?srcs\<rparr>"
  let ?w2 = "(example_world 80 24)\<lparr>IoctlGetWinsize := Inl (Err ''inappropriate ioctl for device'')\<rparr>"
  let ?w3 = "(example_world 80 24)\<lparr>ReadFile := \<lambda>f. Inl (Err ''no such file'')\<rparr>"
  have f: "followed (example_world 80 24) 0 ?srcs = [0, 2]"
    "diagnostics (example_world 80 24) ?srcs = [Println ''>>>>>>>>>>>>>>>>>>>>> error  permission denied'']"
    "followed ?w2 0 ?srcs = [0, 2]"
    "diagnostics ?w2 ?srcs = [Println ''>>>>>>>>>>>>>>>>>>>>> error  permission denied'']"
    by (simp_all add: followed_def diagnostics_def example_world_def src_a_def src_b_def src_c_def)
  have 1: "main (example_world 80 24) = Started [0, 2]
             [Println ''>>>>>>>>>>>>>>>>>>>>> error  permission denied''] (80, 24)"
    using failure_severity [of "example_world 80 24" _ ?cfg ?srcs]
    by (simp add: f) (simp add: loadConfig_def example_world_def)
  have 2: "main ?w2 = Crashed (Err ''inappropriate ioctl for device'')
             [Println ''>>>>>>>>>>>>>>>>>>>>> error  permission denied'']"
    using failure_severity [of ?w2 _ ?cfg ?srcs]
    by (simp add: f) (simp add: loadConfig_def example_world_def)
  have 3: "main ?w3 = Fatal (Err ''no such file'')"
    using failure_severity [of ?w3 "Err ''no such file''" ?cfg ?srcs]
    by (simp add: loadConfig_def example_world_def)
  show ?thesis using 1 2 3 by simp
qed

section \<open>The perceived lightness\<close>

subsection \<open>Powers and quotients under small changes\<close>

lemma exp_m1_bound: "\<bar>s\<bar> \<le> 1 \<Longrightarrow> \<bar>exp s - 1\<bar> \<le> 2 * \<bar>s :: real\<bar>"
proof (cases "0 \<le> s")
  case True
  assume "\<bar>s\<bar> \<le> 1"
  then have s: "s \<le> 1" by simp
  have "exp s \<le> 1 + s + s\<^sup>2" using True s by (rule exp_bound)
  moreover have "s\<^sup>2 \<le> s" using True s by (simp add: power2_eq_square mult_left_le)
  moreover have "1 + s \<le> exp s" by (rule exp_ge_add_one_self)
  ultimately show ?thesis using True by simp
next
  case False
  have "1 + s \<le> exp s" by (rule exp_ge_add_one_self)
  moreover have "exp s \<le> 1" using False by simp
  ultimately show ?thesis using False by linarith
qed

lemma ln_abs_bound:
  assumes "0 < a" "a \<le> 1" "a \<le> x" "x \<le> (2::real)"
  shows "\<bar>ln x\<bar> \<le> 1 / a"
proof -
  have x: "0 < x" using assms by simp
  have 1: "ln x \<le> x - 1" using x by (rule ln_le_minus_one)
  have "ln (1 / x) \<le> 1 / x - 1" using x by (intro ln_le_minus_one) simp
  then have 2: "- ln x \<le> 1 / x - 1" using x by (simp add: ln_div)
  have 3: "1 / x \<le> 1 / a" using assms by (simp add: frac_le)
  have 4: "1 \<le> 1 / a" using assms by simp
  show ?thesis using 1 2 3 4 assms by linarith
qed

lemma powr_exponent_err:
  assumes "0 < a" "a \<le> 1" "a \<le> x" "x \<le> (2::real)" "\<bar>e - p\<bar> \<le> d" "d \<le> a"
  shows "\<bar>x powr e - x powr p\<bar> \<le> x powr p * (2 * d / a)"
proof -
  have x: "0 < x" using assms by simp
  have d: "0 \<le> d" using assms by linarith
  have l: "\<bar>ln x\<bar> \<le> 1 / a" using assms by (intro ln_abs_bound)
  have "\<bar>(e - p) * ln x\<bar> \<le> d * (1 / a)"
    unfolding abs_mult using assms(5) l by (intro mult_mono) auto
  then have s: "\<bar>(e - p) * ln x\<bar> \<le> d / a" by simp
  moreover have "d / a \<le> 1" using assms by simp
  ultimately have "\<bar>exp ((e - p) * ln x) - 1\<bar> \<le> 2 * \<bar>(e - p) * ln x\<bar>"
    by (intro exp_m1_bound) linarith
  then have b: "\<bar>x powr (e - p) - 1\<bar> \<le> 2 * d / a"
    using s x by (simp add: powr_def)
  have "x powr e = x powr p * x powr (e - p)"
    by (simp flip: powr_add)
  then have "x powr e - x powr p = x powr p * (x powr (e - p) - 1)"
    by (simp add: algebra_simps)
  then have "\<bar>x powr e - x powr p\<bar> = x powr p * \<bar>x powr (e - p) - 1\<bar>"
    by (simp add: abs_mult)
  also have "\<dots> \<le> x powr p * (2 * d / a)"
    using b by (intro mult_left_mono) auto
  finally show ?thesis .
qed

lemma powr_base_up:
  assumes "0 < a" "a \<le> x" "x \<le> y" "0 \<le> p" "p * (y - x) \<le> (a::real)"
  shows "y powr p - x powr p \<le> x powr p * (2 * p * (y - x) / a)"
proof -
  have x: "0 < x" and y: "0 < y" using assms by simp_all
  have q: "1 \<le> y / x" using assms x by simp
  have "ln (y / x) \<le> y / x - 1" using x y by (intro ln_le_minus_one) simp
  also have "\<dots> = (y - x) / x" using x by (simp add: field_simps)
  also have "\<dots> \<le> (y - x) / a" using assms by (intro divide_left_mono) (auto simp: x)
  finally have l: "ln (y / x) \<le> (y - x) / a" .
  have l0: "0 \<le> ln (y / x)" using q by simp
  have "p * ln (y / x) \<le> p * ((y - x) / a)" using l assms by (intro mult_left_mono) auto
  then have s: "p * ln (y / x) \<le> p * (y - x) / a" by simp
  have s0: "p * (y - x) / a \<le> 1" using assms by simp
  have "0 \<le> p * ln (y / x)" using l0 assms by simp
  then have s1: "\<bar>p * ln (y / x)\<bar> \<le> 1" using s s0 by linarith
  have "\<bar>exp (p * ln (y / x)) - 1\<bar> \<le> 2 * \<bar>p * ln (y / x)\<bar>"
    using s1 by (rule exp_m1_bound)
  then have "exp (p * ln (y / x)) - 1 \<le> 2 * (p * ln (y / x))"
    using l0 assms by (simp add: abs_mult)
  then have b: "(y / x) powr p - 1 \<le> 2 * p * (y - x) / a"
    using s x y by (simp add: powr_def)
  have "y powr p = x powr p * (y / x) powr p"
    using x y by (simp add: powr_divide)
  then have "y powr p - x powr p = x powr p * ((y / x) powr p - 1)"
    by (simp add: algebra_simps)
  also have "\<dots> \<le> x powr p * (2 * p * (y - x) / a)"
    using b by (intro mult_left_mono) auto
  finally show ?thesis .
qed

lemma powr_base_err:
  assumes "0 < a" "a \<le> x" "a \<le> y" "0 \<le> p" "\<bar>y - x\<bar> \<le> h" "p * h \<le> (a::real)"
    "x powr p \<le> M" "y powr p \<le> M"
  shows "\<bar>y powr p - x powr p\<bar> \<le> M * (2 * p * h / a)"
proof -
  have h: "0 \<le> h" using assms by linarith
  have M: "0 \<le> M" using assms(7) powr_ge_zero [of x p] by linarith
  have *: "v powr p - u powr p \<le> M * (2 * p * h / a) \<and> 0 \<le> v powr p - u powr p"
    if "a \<le> u" "u \<le> v" "v - u \<le> h" "u powr p \<le> M" for u v
  proof -
    have "p * (v - u) \<le> p * h" using that assms by (intro mult_left_mono) auto
    then have "p * (v - u) \<le> a" using assms by linarith
    then have "v powr p - u powr p \<le> u powr p * (2 * p * (v - u) / a)"
      using that assms by (intro powr_base_up) auto
    also have "\<dots> \<le> M * (2 * p * h / a)"
      using that assms h M by (intro mult_mono divide_right_mono mult_left_mono) auto
    finally have "v powr p - u powr p \<le> M * (2 * p * h / a)" .
    moreover have "u powr p \<le> v powr p"
      using that assms by (intro powr_mono2) auto
    ultimately show ?thesis by simp
  qed
  show ?thesis
  proof (cases "x \<le> y")
    case True
    then show ?thesis using * [of x y] assms by simp
  next
    case False
    then show ?thesis using * [of y x] assms by simp
  qed
qed

lemma powr_le_small:
  assumes "0 < x" "x \<le> 1 + c" "0 \<le> c" "0 \<le> p" "p \<le> (3::real)"
  shows "x powr p \<le> (1 + c) ^ 3"
proof -
  have "x powr p \<le> (1 + c) powr p" using assms by (intro powr_mono2) auto
  also have "\<dots> \<le> (1 + c) powr 3" using assms by (intro powr_mono) auto
  also have "\<dots> = (1 + c) ^ 3" using assms by (simp add: powr_numeral)
  finally show ?thesis .
qed

lemma cube_root_cube: "0 < c \<Longrightarrow> (c ^ 3) powr (1 / 3) = (c::real)"
  by (simp add: powr_powr flip: powr_numeral)

lemma cube_root_slope:
  assumes "0 < x" "x \<le> y" "y \<le> (1001 / 1000 :: real)"
  shows "(y - x) / (301 / 100) \<le> y powr (1 / 3) - x powr (1 / 3)"
proof -
  define s where "s = y powr (1 / 3)"
  define t where "t = x powr (1 / 3)"
  have y: "0 < y" using assms by simp
  have s3: "s ^ 3 = y" unfolding s_def using y by (simp add: powr_powr flip: powr_numeral)
  have t3: "t ^ 3 = x" unfolding t_def using assms by (simp add: powr_powr flip: powr_numeral)
  have t0: "0 < t" unfolding t_def using assms by simp
  have ts: "t \<le> s" unfolding s_def t_def using assms by (intro powr_mono2) auto
  have "s \<le> (1 + 1 / 1000) powr (1 / 3)" unfolding s_def using assms y by (intro powr_mono2) auto
  also have "\<dots> \<le> (1 + 1 / 1000) powr 1" by (intro powr_mono) auto
  finally have s1: "s \<le> 1001 / 1000" by simp
  have "s\<^sup>2 + s * t + t\<^sup>2 \<le> (1001 / 1000)\<^sup>2 + (1001 / 1000) * (1001 / 1000) + (1001 / 1000)\<^sup>2"
    using s1 ts t0 by (intro add_mono power_mono mult_mono) auto
  then have q: "s\<^sup>2 + s * t + t\<^sup>2 \<le> 301 / 100" by (simp add: power2_eq_square)
  have "y - x = (s - t) * (s\<^sup>2 + s * t + t\<^sup>2)"
    by (simp add: s3 [symmetric] t3 [symmetric] algebra_simps power2_eq_square power3_eq_cube)
  also have "\<dots> \<le> (s - t) * (301 / 100)" using q ts by (intro mult_left_mono) auto
  finally show ?thesis unfolding s_def t_def by simp
qed

lemma mult_err:
  assumes "\<bar>a - a0\<bar> \<le> ea" "\<bar>b - b0\<bar> \<le> eb" "\<bar>a0\<bar> \<le> A" "\<bar>b\<bar> \<le> (B::real)"
  shows "\<bar>a * b - a0 * b0\<bar> \<le> ea * B + A * eb"
proof -
  have "a * b - a0 * b0 = (a - a0) * b + a0 * (b - b0)" by (simp add: algebra_simps)
  then have "\<bar>a * b - a0 * b0\<bar> \<le> \<bar>a - a0\<bar> * \<bar>b\<bar> + \<bar>a0\<bar> * \<bar>b - b0\<bar>"
    by (metis abs_mult abs_triangle_ineq)
  also have "\<dots> \<le> ea * B + A * eb"
    using assms by (intro add_mono mult_mono) auto
  finally show ?thesis .
qed

lemma div_err:
  assumes "\<bar>a - a0\<bar> \<le> ea" "\<bar>b - b0\<bar> \<le> eb" "\<bar>a0\<bar> \<le> A" "1 \<le> b" "1 \<le> (b0::real)"
  shows "\<bar>a / b - a0 / b0\<bar> \<le> ea + A * eb"
proof -
  have ea: "0 \<le> ea" and eb: "0 \<le> eb" and A: "0 \<le> A" using assms by linarith+
  have "a / b - a0 / b0 = (a - a0) / b + a0 * (b0 - b) / (b * b0)"
    using assms by (simp add: field_simps)
  then have "\<bar>a / b - a0 / b0\<bar> \<le> \<bar>(a - a0) / b\<bar> + \<bar>a0 * (b0 - b) / (b * b0)\<bar>"
    by (metis abs_triangle_ineq)
  also have "\<dots> = \<bar>a - a0\<bar> / b + \<bar>a0\<bar> * \<bar>b - b0\<bar> / (b * b0)"
    using assms by (simp add: abs_mult abs_minus_commute)
  also have "\<dots> \<le> ea / 1 + A * eb / 1"
    using assms ea eb A
    by (intro add_mono frac_le mult_mono) (auto simp: mult_ge1_I)
  finally show ?thesis by simp
qed

subsection \<open>The rounded computation against the exact one\<close>

text \<open>
  Under \<open>float64_accurate\<close> every step of \<^verbatim>\<open>perceivedLightness\<close> on components within
  0 to 255 takes the same branch as the exact computation, \<open>perceivedLightness ideal_libs\<close>,
  and stays within a few hundred \<open>eps64\<close> of it.
\<close>

lemma perceivedLightness_eq:
  "perceivedLightness L r g b = lightness_of L (luminance L r g b)"
  by (simp add: perceivedLightness_def lightness_of_def luminance_def normalized_def Let_def)

lemma eps64_val: "eps64 = 1 / 1000000000000"
  by (simp add: eps64_def)

lemma rnd_zero: "float64_accurate L \<Longrightarrow> rnd64 L 0 = 0"
  by (simp add: float64_accurate_def)

lemma rnd_err: "float64_accurate L \<Longrightarrow> \<bar>x\<bar> \<le> 1024 \<Longrightarrow> \<bar>rnd64 L x - x\<bar> \<le> eps64"
  by (simp add: float64_accurate_def)

lemma pow_err:
  "float64_accurate L \<Longrightarrow> 0 < x \<Longrightarrow> x \<le> 2 \<Longrightarrow> 0 < y \<Longrightarrow> y \<le> 4 \<Longrightarrow>
   \<bar>math_Pow L x y - x powr y\<bar> \<le> eps64"
  by (simp add: float64_accurate_def)

lemma float64_accurate_ideal: "float64_accurate ideal_libs"
  by (simp add: float64_accurate_def ideal_libs_def eps64_def)

lemma normalized_zero: "float64_accurate L \<Longrightarrow> normalized L 0 = 0"
  by (simp add: normalized_def f64_defs rnd_zero)

lemma normalized_err:
  assumes acc: "float64_accurate L" and k: "0 \<le> k" "k \<le> 255"
  shows "\<bar>normalized L k - of_int k / 255\<bar> \<le> 2 * eps64"
proof -
  define a where "a = rnd64 L (of_int k)"
  have kr: "0 \<le> (of_int k :: real)" "(of_int k :: real) \<le> 255" using k by simp_all
  have "\<bar>a - of_int k\<bar> \<le> eps64" unfolding a_def using kr by (intro rnd_err [OF acc]) simp
  then have a: "\<bar>a - of_int k\<bar> \<le> eps64" .
  have "\<bar>a\<bar> \<le> 1024" using a kr eps64_val by linarith
  then have "\<bar>a / 255\<bar> \<le> 1024" by simp
  then have "\<bar>rnd64 L (a / 255) - a / 255\<bar> \<le> eps64" by (rule rnd_err [OF acc])
  moreover have "normalized L k = rnd64 L (a / 255)" by (simp add: normalized_def f64_defs a_def)
  ultimately show ?thesis using a eps64_val by linarith
qed

lemma linearize_zero: "float64_accurate L \<Longrightarrow> linearize L 0 = 0"
proof -
  assume acc: "float64_accurate L"
  define t where "t = rnd64 L 0.04045"
  have "\<bar>t - 4045 / 100000\<bar> \<le> eps64"
    unfolding t_def using rnd_err [OF acc, of "0.04045"] by simp
  then have "0 \<le> t" using eps64_val by linarith
  then show ?thesis by (simp add: linearize_def f64_defs rnd_zero [OF acc] t_def)
qed

lemma linearize_low:
  assumes acc: "float64_accurate L" and c: "\<bar>x - c\<bar> \<le> 2 * eps64" "0 \<le> c" "c \<le> 4 / 100"
  shows "\<bar>linearize L x - c / 12.92\<bar> \<le> 4 * eps64"
proof -
  define d where "d = rnd64 L 12.92"
  define t where "t = rnd64 L 0.04045"
  have t: "\<bar>t - 4045 / 100000\<bar> \<le> eps64"
    unfolding t_def using rnd_err [OF acc, of "0.04045"] by simp
  have d: "\<bar>d - 1292 / 100\<bar> \<le> eps64"
    unfolding d_def using rnd_err [OF acc, of "12.92"] by simp
  have br: "x \<le> t" using c t eps64_val by linarith
  have l: "linearize L x = rnd64 L (x / d)"
    using br by (simp add: linearize_def f64_defs d_def t_def)
  have d1: "1 \<le> d" using d eps64_val by linarith
  have "\<bar>x / d - c / (1292 / 100)\<bar> \<le> 2 * eps64 + 4 / 100 * eps64"
    using c d d1 by (intro div_err) auto
  then have q: "\<bar>x / d - c / 12.92\<bar> \<le> 2 * eps64 + 4 / 100 * eps64" by simp
  have x0: "\<bar>x\<bar> \<le> 1" using c eps64_val by linarith
  have "\<bar>x / d\<bar> \<le> \<bar>x\<bar> / 1" unfolding abs_divide using d1 by (intro frac_le) auto
  then have "\<bar>x / d\<bar> \<le> 1024" using x0 by linarith
  then have "\<bar>rnd64 L (x / d) - x / d\<bar> \<le> eps64" by (rule rnd_err [OF acc])
  then show ?thesis using q l eps64_val by linarith
qed

lemma linearize_high_arg:
  assumes acc: "float64_accurate L" and c: "\<bar>x - c\<bar> \<le> 2 * eps64" "41 / 1000 \<le> c" "c \<le> 1"
  shows "linearize L x =
           math_Pow L (fdiv L (fadd L x (flit L 0.055)) (flit L 1.055)) (flit L 2.4) \<and>
         \<bar>fdiv L (fadd L x (flit L 0.055)) (flit L 1.055) - (c + 0.055) / 1.055\<bar> \<le> 7 * eps64"
proof -
  define d where "d = rnd64 L 1.055"
  define z where "z = rnd64 L 0.055"
  define t where "t = rnd64 L 0.04045"
  define a where "a = rnd64 L (x + z)"
  have t: "\<bar>t - 4045 / 100000\<bar> \<le> eps64"
    unfolding t_def using rnd_err [OF acc, of "0.04045"] by simp
  have d: "\<bar>d - 1055 / 1000\<bar> \<le> eps64"
    unfolding d_def using rnd_err [OF acc, of "1.055"] by simp
  have z: "\<bar>z - 55 / 1000\<bar> \<le> eps64"
    unfolding z_def using rnd_err [OF acc, of "0.055"] by simp
  have br: "\<not> x \<le> t" using c t eps64_val by linarith
  have l: "linearize L x = math_Pow L (fdiv L (fadd L x (flit L 0.055)) (flit L 1.055)) (flit L 2.4)"
    using br by (simp add: linearize_def f64_defs t_def)
  have "\<bar>x + z\<bar> \<le> 1024" using c z eps64_val by linarith
  then have "\<bar>a - (x + z)\<bar> \<le> eps64" unfolding a_def by (rule rnd_err [OF acc])
  then have a: "\<bar>a - (c + 55 / 1000)\<bar> \<le> 4 * eps64" using c z by linarith
  have d1: "1 \<le> d" using d eps64_val by linarith
  have "\<bar>c + 55 / 1000\<bar> \<le> 1055 / 1000" using c by linarith
  then have "\<bar>a / d - (c + 55 / 1000) / (1055 / 1000)\<bar> \<le> 4 * eps64 + 1055 / 1000 * eps64"
    using a d d1 by (intro div_err) auto
  then have q: "\<bar>a / d - (c + 0.055) / 1.055\<bar> \<le> 4 * eps64 + 1055 / 1000 * eps64"
    by simp
  have a0: "\<bar>a\<bar> \<le> 2" using a c eps64_val by linarith
  have "\<bar>a / d\<bar> \<le> \<bar>a\<bar> / 1" unfolding abs_divide using d1 by (intro frac_le) auto
  then have "\<bar>a / d\<bar> \<le> 1024" using a0 by linarith
  then have "\<bar>rnd64 L (a / d) - a / d\<bar> \<le> eps64" by (rule rnd_err [OF acc])
  moreover have "fdiv L (fadd L x (flit L 0.055)) (flit L 1.055) = rnd64 L (a / d)"
    by (simp add: f64_defs a_def d_def z_def)
  ultimately have "\<bar>fdiv L (fadd L x (flit L 0.055)) (flit L 1.055) - (c + 0.055) / 1.055\<bar>
      \<le> 7 * eps64"
    using q eps64_val by linarith
  then show ?thesis using l by simp
qed

lemma pow_approx:
  assumes acc: "float64_accurate L"
    and u: "9 / 100 \<le> u" "u \<le> 1" "\<bar>x - u\<bar> \<le> 7 * eps64"
  shows "\<bar>math_Pow L x (flit L 2.4) - u powr 2.4\<bar> \<le> 460 * eps64"
proof -
  define e where "e = rnd64 L 2.4"
  have e: "\<bar>e - 24 / 10\<bar> \<le> eps64"
    unfolding e_def using rnd_err [OF acc, of "2.4"] by simp
  have x: "8 / 100 \<le> x" "x \<le> 1 + 1 / 1000" using u eps64_val by linarith+
  have 1: "\<bar>math_Pow L x e - x powr e\<bar> \<le> eps64"
    using x e eps64_val by (intro pow_err [OF acc]) linarith+
  have M: "x powr 2.4 \<le> (1 + 1 / 1000) ^ 3" using x by (intro powr_le_small) auto
  have Mu: "u powr 2.4 \<le> (1 + 1 / 1000) ^ 3" using u by (intro powr_le_small) auto
  have "\<bar>x powr e - x powr 2.4\<bar> \<le> x powr 2.4 * (2 * eps64 / (8 / 100))"
    using x e eps64_val by (intro powr_exponent_err) auto
  also have "\<dots> \<le> (1 + 1 / 1000) ^ 3 * (2 * eps64 / (8 / 100))"
    using M eps64_val by (intro mult_right_mono) auto
  finally have 2: "\<bar>x powr e - x powr 2.4\<bar> \<le> 26 * eps64"
    using eps64_val by (simp add: power3_eq_cube)
  have "\<bar>x powr 2.4 - u powr 2.4\<bar> \<le> (1 + 1 / 1000) ^ 3 * (2 * 2.4 * (7 * eps64) / (8 / 100))"
    using x u M Mu eps64_val by (intro powr_base_err) auto
  then have 3: "\<bar>x powr 2.4 - u powr 2.4\<bar> \<le> 430 * eps64"
    using eps64_val by (simp add: power3_eq_cube)
  have "\<bar>math_Pow L x e - u powr 2.4\<bar> \<le> 460 * eps64" using 1 2 3 by linarith
  then show ?thesis by (simp add: flit_def e_def)
qed

lemma linearize_high:
  assumes acc: "float64_accurate L" and c: "\<bar>x - c\<bar> \<le> 2 * eps64" "41 / 1000 \<le> c" "c \<le> 1"
  shows "\<bar>linearize L x - ((c + 0.055) / 1.055) powr 2.4\<bar> \<le> 460 * eps64"
proof -
  define u where "u = (c + 0.055) / 1.055"
  have u: "9 / 100 \<le> u" "u \<le> 1" unfolding u_def using c by simp_all
  show ?thesis
    using linearize_high_arg [OF acc c] pow_approx [OF acc u] by (simp add: u_def)
qed

subsection \<open>The exact linearisation on the 256 component values\<close>

text \<open>
  From one component value to the next the exact linearised value grows by at least
  \<open>2 / 10000\<close>, so the exact luminance of two different ordered triplets differs by
  at least \<open>1444 / 10 ^ 8\<close>, far more than rounding can move it.
\<close>

lemma powr_diff_lower:
  assumes "0 < u" "u \<le> v" "0 \<le> (p::real)"
  shows "p * u powr p * (1 - u / v) \<le> v powr p - u powr p"
proof -
  have v: "0 < v" using assms by simp
  have "ln (u / v) \<le> u / v - 1" using assms v by (intro ln_le_minus_one) simp
  then have l: "1 - u / v \<le> ln (v / u)" using assms v by (simp add: ln_div)
  have "1 + p * ln (v / u) \<le> exp (p * ln (v / u))" by (rule exp_ge_add_one_self)
  then have "1 + p * ln (v / u) \<le> (v / u) powr p" using assms v by (simp add: powr_def)
  moreover have "p * (1 - u / v) \<le> p * ln (v / u)" using l assms by (intro mult_left_mono) auto
  ultimately have b: "p * (1 - u / v) \<le> (v / u) powr p - 1" by linarith
  have "v powr p = u powr p * (v / u) powr p" using assms v by (simp add: powr_divide)
  then have "v powr p - u powr p = u powr p * ((v / u) powr p - 1)" by (simp add: algebra_simps)
  moreover have "u powr p * (p * (1 - u / v)) \<le> u powr p * ((v / u) powr p - 1)"
    using b by (intro mult_left_mono) auto
  ultimately show ?thesis by (simp add: mult_ac)
qed

lemma powr_rat_lower:
  assumes "0 < x" "0 \<le> c" "c ^ Suc n \<le> x ^ m"
  shows "c \<le> x powr (real m / real (Suc n))"
proof -
  have "(x powr (real m / real (Suc n))) ^ Suc n = x powr (real m / real (Suc n) * real (Suc n))"
    using assms by (simp only: powr_powr powr_realpow [symmetric] powr_gt_zero)
  also have "\<dots> = x powr real m" by simp
  also have "\<dots> = x ^ m" using assms by (simp add: powr_realpow)
  finally have "c ^ Suc n \<le> (x powr (real m / real (Suc n))) ^ Suc n" using assms by simp
  then show ?thesis by (rule power_le_imp_le_base) simp
qed

lemma lin_ref_low:
  "k \<le> 10 \<Longrightarrow> linearize ideal_libs (of_int k / 255) = of_int k / 255 / 12.92"
proof -
  assume "k \<le> 10"
  then have "(of_int k :: real) \<le> 10" by simp
  then show ?thesis by (simp add: linearize_def f64_defs ideal_libs_def)
qed

lemma lin_ref_high:
  "11 \<le> k \<Longrightarrow>
   linearize ideal_libs (of_int k / 255) = ((of_int k / 255 + 0.055) / 1.055) powr 2.4"
proof -
  assume "11 \<le> k"
  then have "11 \<le> (of_int k :: real)" by simp
  then show ?thesis by (simp add: linearize_def f64_defs ideal_libs_def)
qed

lemma lin_ref_11: "334 / 100000 \<le> ((11 / 255 + 55 / 1000) / (1055 / 1000)) powr (2.4 :: real)"
proof -
  have "(334 / 100000 :: real) \<le>
      ((11 / 255 + 55 / 1000) / (1055 / 1000)) powr (real 12 / real (Suc 4))"
    by (rule powr_rat_lower) (simp_all add: power_divide)
  then show ?thesis by simp
qed

lemma powr_14_lower: "9 / 100 \<le> u \<Longrightarrow> 3 / 100 \<le> u powr (1.4 :: real)"
proof -
  assume u: "9 / 100 \<le> u"
  have "(3 / 100 :: real) \<le> (9 / 100) powr (real 7 / real (Suc 4))"
    by (rule powr_rat_lower) (simp_all add: power_divide)
  also have "\<dots> \<le> u powr (real 7 / real (Suc 4))" using u by (intro powr_mono2) auto
  finally show ?thesis by simp
qed

lemma gap_arith:
  assumes "c * (P * w) \<le> V - P" "P = Q * u" "k \<le> u * w" "q \<le> Q"
    "0 \<le> k" "0 \<le> q" "0 \<le> c" "m \<le> c * (q * k)"
  shows "P + m \<le> (V::real)"
proof -
  have "q * k \<le> Q * (u * w)" using assms by (intro mult_mono) auto
  then have "c * (q * k) \<le> c * (Q * (u * w))" using assms by (intro mult_left_mono) auto
  also have "\<dots> = c * (P * w)" using assms by (simp add: mult_ac)
  finally show ?thesis using assms by linarith
qed

lemma lin_ref_step_high:
  assumes u: "9 / 100 \<le> (u::real)"
  shows "u powr 2.4 + 2 / 10000 \<le> (u + 1 / (255 * 1.055)) powr 2.4"
proof -
  define v where "v = u + 1 / (255 * 1.055)"
  define w where "w = 1 - u / v"
  have uv: "u \<le> v" unfolding v_def by simp
  have u0: "0 < u" using u by simp
  have v0: "0 < v" using uv u0 by simp
  have "2.4 * u powr 2.4 * (1 - u / v) \<le> v powr 2.4 - u powr 2.4"
    using u0 uv by (intro powr_diff_lower) auto
  then have 1: "2.4 * (u powr 2.4 * w) \<le> v powr 2.4 - u powr 2.4"
    by (simp add: w_def mult_ac)
  have 2: "u powr 2.4 = u powr 1.4 * u"
  proof -
    have "u powr 2.4 = u powr (1.4 + 1)" by simp
    also have "\<dots> = u powr 1.4 * u powr 1" by (simp only: powr_add)
    finally show ?thesis using u0 by simp
  qed
  have "9 / 10 * v \<le> u" unfolding v_def using u by simp
  then have "9 / 10 \<le> u / v" using v0 by (simp add: field_simps)
  moreover have "u * w = u / v * (v - u)" unfolding w_def using v0 by (simp add: field_simps)
  moreover have "v - u = 40 / 10761" unfolding v_def by simp
  ultimately have 3: "9 / 10 * (40 / 10761) \<le> u * w" by simp
  have 4: "3 / 100 \<le> u powr 1.4" using u by (rule powr_14_lower)
  have "u powr 2.4 + 2 / 10000 \<le> v powr 2.4"
    using 1 2 3 4 by (rule gap_arith) simp_all
  then show ?thesis by (simp only: v_def)
qed

lemma lin_ref_step:
  assumes "0 \<le> k"
  shows "linearize ideal_libs (of_int k / 255) + 2 / 10000
       \<le> linearize ideal_libs (of_int (k + 1) / 255)"
proof -
  consider "k + 1 \<le> 10" | "k = 10" | "11 \<le> k" by linarith
  then show ?thesis
  proof cases
    case 1
    then have "k \<le> 10" by simp
    then show ?thesis using 1 by (simp add: lin_ref_low del: of_int_add) (simp add: field_simps)
  next
    case 2
    have "linearize ideal_libs (of_int k / 255) = 10 / 255 / 12.92"
      using 2 lin_ref_low [of 10] by simp
    moreover have "linearize ideal_libs (of_int (k + 1) / 255)
        = ((11 / 255 + 55 / 1000) / (1055 / 1000)) powr 2.4"
      using 2 lin_ref_high [of 11] by simp
    ultimately show ?thesis using lin_ref_11 by simp
  next
    case 3
    define u :: real where "u = (of_int k / 255 + 0.055) / 1.055"
    have "11 \<le> (of_int k :: real)" using 3 by simp
    then have u: "9 / 100 \<le> u" unfolding u_def by simp
    have e: "(of_int (k + 1) / 255 + 0.055) / 1.055 = u + 1 / (255 * 1.055)"
      unfolding u_def by (simp add: field_simps)
    have h: "linearize ideal_libs (of_int (k + 1) / 255)
        = ((of_int (k + 1) / 255 + 0.055) / 1.055) powr 2.4"
      using 3 by (intro lin_ref_high) simp
    have h': "linearize ideal_libs (of_int k / 255) = ((of_int k / 255 + 0.055) / 1.055) powr 2.4"
      using 3 by (rule lin_ref_high)
    show ?thesis using lin_ref_step_high [OF u] by (simp only: h h' e u_def [symmetric])
  qed
qed

lemma lin_ref_gap_nat:
  "0 \<le> k \<Longrightarrow> linearize ideal_libs (of_int k / 255) + 2 / 10000
       \<le> linearize ideal_libs (of_int (k + 1 + int n) / 255)"
proof (induction n)
  case 0
  then show ?case using lin_ref_step [of k] by simp
next
  case (Suc n)
  have "linearize ideal_libs (of_int (k + 1 + int n) / 255) + 2 / 10000
      \<le> linearize ideal_libs (of_int (k + 1 + int n + 1) / 255)"
    using Suc.prems by (intro lin_ref_step) simp
  moreover have "k + 1 + int n + 1 = k + 1 + int (Suc n)" by simp
  ultimately show ?case using Suc by (simp del: of_int_add)
qed

lemma lin_ref_gap:
  assumes "0 \<le> k" "k < k'"
  shows "linearize ideal_libs (of_int k / 255) + 2 / 10000
       \<le> linearize ideal_libs (of_int k' / 255)"
proof -
  have "k' = k + 1 + int (nat (k' - k - 1))" using assms by simp
  then show ?thesis using lin_ref_gap_nat [OF assms(1), of "nat (k' - k - 1)"] by simp
qed

lemma lin_ref_mono:
  assumes "0 \<le> k" "k \<le> k'"
  shows "linearize ideal_libs (of_int k / 255) \<le> linearize ideal_libs (of_int k' / 255)"
proof (cases "k = k'")
  case False
  then show ?thesis using lin_ref_gap [of k k'] assms by simp
qed simp

lemma lin_ref_0: "linearize ideal_libs (of_int 0 / 255) = 0"
  using lin_ref_low [of 0] by simp

lemma lin_ref_255: "linearize ideal_libs (of_int 255 / 255) = 1"
  using lin_ref_high [of 255] by simp

lemma lin_ref_range:
  assumes "0 \<le> k" "k \<le> 255"
  shows "0 \<le> linearize ideal_libs (of_int k / 255) \<and> linearize ideal_libs (of_int k / 255) \<le> 1"
  using lin_ref_mono [of 0 k] lin_ref_mono [of k 255] lin_ref_0 lin_ref_255 assms
  by (simp del: of_int_0 of_int_numeral)

lemma luminance_ideal:
  "luminance ideal_libs r g b =
     0.2126 * linearize ideal_libs (of_int r / 255)
     + 0.7152 * linearize ideal_libs (of_int g / 255)
     + 0.0722 * linearize ideal_libs (of_int b / 255)"
  by (simp add: luminance_def normalized_def f64_defs ideal_rnd)

lemma linearize_err:
  assumes acc: "float64_accurate L" and k: "0 \<le> k" "k \<le> 255"
  shows "\<bar>linearize L (normalized L k) - linearize ideal_libs (of_int k / 255)\<bar> \<le> 460 * eps64"
proof (cases "k \<le> 10")
  case True
  define c :: real where "c = of_int k / 255"
  have "(of_int k :: real) \<le> 10" "0 \<le> (of_int k :: real)" using True k by simp_all
  then have c: "0 \<le> c" "c \<le> 4 / 100" unfolding c_def by simp_all
  have n: "\<bar>normalized L k - c\<bar> \<le> 2 * eps64" unfolding c_def using acc k by (rule normalized_err)
  have "\<bar>linearize L (normalized L k) - c / 12.92\<bar> \<le> 4 * eps64"
    using acc n c by (rule linearize_low)
  moreover have "linearize ideal_libs c = c / 12.92" unfolding c_def using True by (rule lin_ref_low)
  moreover have "0 \<le> eps64" by (simp add: eps64_val)
  ultimately show ?thesis unfolding c_def by linarith
next
  case False
  define c :: real where "c = of_int k / 255"
  have k11: "11 \<le> k" using False by simp
  then have "11 \<le> (of_int k :: real)" "(of_int k :: real) \<le> 255" using k by simp_all
  then have c: "41 / 1000 \<le> c" "c \<le> 1" unfolding c_def by simp_all
  have n: "\<bar>normalized L k - c\<bar> \<le> 2 * eps64" unfolding c_def using acc k by (rule normalized_err)
  have "\<bar>linearize L (normalized L k) - ((c + 0.055) / 1.055) powr 2.4\<bar> \<le> 460 * eps64"
    using acc n c by (rule linearize_high)
  moreover have "linearize ideal_libs c = ((c + 0.055) / 1.055) powr 2.4"
    unfolding c_def using k11 by (rule lin_ref_high)
  ultimately show ?thesis unfolding c_def by linarith
qed

lemma term_err:
  assumes acc: "float64_accurate L" and c: "0 \<le> c" "c \<le> 1"
    and l: "\<bar>l - l0\<bar> \<le> 460 * eps64" "0 \<le> l0" "l0 \<le> 1"
  shows "\<bar>fmul L (flit L c) l - c * l0\<bar> \<le> (3 + 460 * c) * eps64"
proof -
  define a where "a = rnd64 L c"
  have a: "\<bar>a - c\<bar> \<le> eps64" unfolding a_def using c by (intro rnd_err [OF acc]) simp
  have lb: "\<bar>l\<bar> \<le> 1001 / 1000" using l eps64_val by linarith
  have "\<bar>a * l - c * l0\<bar> \<le> eps64 * (1001 / 1000) + c * (460 * eps64)"
    using a l(1) _ lb by (rule mult_err) (use c in simp)
  then have m: "\<bar>a * l - c * l0\<bar> \<le> (2 + 460 * c) * eps64"
    using eps64_val by (simp add: algebra_simps)
  have "c * l0 \<le> 1 * 1" using c l by (intro mult_mono) auto
  moreover have "0 \<le> c * l0" using c l by simp
  moreover have "(2 + 460 * c) * eps64 \<le> 462 * eps64" using c eps64_val by simp
  ultimately have "\<bar>a * l\<bar> \<le> 1024" using m eps64_val by linarith
  then have "\<bar>rnd64 L (a * l) - a * l\<bar> \<le> eps64" by (rule rnd_err [OF acc])
  then have "\<bar>rnd64 L (a * l) - c * l0\<bar> \<le> (2 + 460 * c) * eps64 + eps64" using m by linarith
  then show ?thesis by (simp add: f64_defs a_def algebra_simps)
qed

lemma sum_err:
  assumes acc: "float64_accurate L"
    and "\<bar>x - x0\<bar> \<le> ex" "\<bar>y - y0\<bar> \<le> ey" "\<bar>x0 + y0\<bar> \<le> 2" "ex + ey \<le> 1"
  shows "\<bar>fadd L x y - (x0 + y0)\<bar> \<le> ex + ey + eps64"
proof -
  have "\<bar>x + y\<bar> \<le> 1024" using assms by linarith
  then have "\<bar>rnd64 L (x + y) - (x + y)\<bar> \<le> eps64" by (rule rnd_err [OF acc])
  then have "\<bar>rnd64 L (x + y) - (x0 + y0)\<bar> \<le> ex + ey + eps64" using assms by linarith
  then show ?thesis by (simp add: f64_defs)
qed

lemma luminance_err:
  assumes acc: "float64_accurate L"
    and r: "0 \<le> r" "r \<le> 255" and g: "0 \<le> g" "g \<le> 255" and b: "0 \<le> b" "b \<le> 255"
  shows "\<bar>luminance L r g b - luminance ideal_libs r g b\<bar> \<le> 480 * eps64"
proof -
  define lr where "lr = linearize ideal_libs (of_int r / 255)"
  define lg where "lg = linearize ideal_libs (of_int g / 255)"
  define lb where "lb = linearize ideal_libs (of_int b / 255)"
  define tr where "tr = fmul L (flit L 0.2126) (linearize L (normalized L r))"
  define tg where "tg = fmul L (flit L 0.7152) (linearize L (normalized L g))"
  define tb where "tb = fmul L (flit L 0.0722) (linearize L (normalized L b))"
  have Lr: "0 \<le> lr" "lr \<le> 1" unfolding lr_def using lin_ref_range [OF r] by simp_all
  have Lg: "0 \<le> lg" "lg \<le> 1" unfolding lg_def using lin_ref_range [OF g] by simp_all
  have Lb: "0 \<le> lb" "lb \<le> 1" unfolding lb_def using lin_ref_range [OF b] by simp_all
  have "\<bar>tr - 0.2126 * lr\<bar> \<le> (3 + 460 * 0.2126) * eps64"
    unfolding tr_def lr_def
    using acc _ _ linearize_err [OF acc r] by (rule term_err) (use Lr in \<open>simp_all add: lr_def\<close>)
  then have 1: "\<bar>tr - 2126 / 10000 * lr\<bar> \<le> 101 * eps64" using eps64_val by simp
  have "\<bar>tg - 0.7152 * lg\<bar> \<le> (3 + 460 * 0.7152) * eps64"
    unfolding tg_def lg_def
    using acc _ _ linearize_err [OF acc g] by (rule term_err) (use Lg in \<open>simp_all add: lg_def\<close>)
  then have 2: "\<bar>tg - 7152 / 10000 * lg\<bar> \<le> 332 * eps64" using eps64_val by simp
  have "\<bar>tb - 0.0722 * lb\<bar> \<le> (3 + 460 * 0.0722) * eps64"
    unfolding tb_def lb_def
    using acc _ _ linearize_err [OF acc b] by (rule term_err) (use Lb in \<open>simp_all add: lb_def\<close>)
  then have 3: "\<bar>tb - 722 / 10000 * lb\<bar> \<le> 37 * eps64" using eps64_val by simp
  have 4: "\<bar>fadd L tr tg - (2126 / 10000 * lr + 7152 / 10000 * lg)\<bar>
      \<le> 101 * eps64 + 332 * eps64 + eps64"
    using acc 1 2 by (rule sum_err) (use Lr Lg eps64_val in linarith)+
  have 5: "\<bar>fadd L (fadd L tr tg) tb
        - ((2126 / 10000 * lr + 7152 / 10000 * lg) + 722 / 10000 * lb)\<bar>
      \<le> (101 * eps64 + 332 * eps64 + eps64) + 37 * eps64 + eps64"
    using acc 4 3 by (rule sum_err) (use Lr Lg Lb eps64_val in linarith)+
  have "luminance L r g b = fadd L (fadd L tr tg) tb"
    by (simp add: luminance_def tr_def tg_def tb_def)
  moreover have "luminance ideal_libs r g b
      = (2126 / 10000 * lr + 7152 / 10000 * lg) + 722 / 10000 * lb"
    by (simp add: luminance_ideal lr_def lg_def lb_def)
  ultimately show ?thesis using 5 eps64_val by linarith
qed

lemma luminance_zero: "float64_accurate L \<Longrightarrow> luminance L 0 0 0 = 0"
  by (simp add: luminance_def normalized_zero linearize_zero)
    (simp add: f64_defs rnd_zero)

lemma luminance_ref_white: "luminance ideal_libs 255 255 255 = 1"
  using lin_ref_255 by (simp add: luminance_ideal)

lemma luminance_ref_range:
  assumes r: "0 \<le> r" "r \<le> 255" and g: "0 \<le> g" "g \<le> 255" and b: "0 \<le> b" "b \<le> 255"
  shows "0 \<le> luminance ideal_libs r g b \<and> luminance ideal_libs r g b \<le> 1"
proof -
  define lr where "lr = linearize ideal_libs (of_int r / 255)"
  define lg where "lg = linearize ideal_libs (of_int g / 255)"
  define lb where "lb = linearize ideal_libs (of_int b / 255)"
  have Lr: "0 \<le> lr" "lr \<le> 1" unfolding lr_def using lin_ref_range [OF r] by simp_all
  have Lg: "0 \<le> lg" "lg \<le> 1" unfolding lg_def using lin_ref_range [OF g] by simp_all
  have Lb: "0 \<le> lb" "lb \<le> 1" unfolding lb_def using lin_ref_range [OF b] by simp_all
  have "luminance ideal_libs r g b
      = (2126 / 10000 * lr + 7152 / 10000 * lg) + 722 / 10000 * lb"
    by (simp add: luminance_ideal lr_def lg_def lb_def)
  then show ?thesis using Lr Lg Lb by linarith
qed

lemma luminance_ref_gap:
  assumes r: "0 \<le> r" "r \<le> r'" and g: "0 \<le> g" "g \<le> g'" and b: "0 \<le> b" "b \<le> b'"
    and ne: "(r, g, b) \<noteq> (r', g', b')"
  shows "luminance ideal_libs r g b + 1444 / 10 ^ 8 \<le> luminance ideal_libs r' g' b'"
proof -
  define lr where "lr = linearize ideal_libs (of_int r / 255)"
  define lg where "lg = linearize ideal_libs (of_int g / 255)"
  define lb where "lb = linearize ideal_libs (of_int b / 255)"
  define lr' where "lr' = linearize ideal_libs (of_int r' / 255)"
  define lg' where "lg' = linearize ideal_libs (of_int g' / 255)"
  define lb' where "lb' = linearize ideal_libs (of_int b' / 255)"
  have m: "lr \<le> lr'" "lg \<le> lg'" "lb \<le> lb'"
    unfolding lr_def lg_def lb_def lr'_def lg'_def lb'_def
    using r g b by (simp_all add: lin_ref_mono)
  have s: "lr + 2 / 10000 \<le> lr' \<or> lg + 2 / 10000 \<le> lg' \<or> lb + 2 / 10000 \<le> lb'"
  proof -
    have "r < r' \<Longrightarrow> lr + 2 / 10000 \<le> lr'"
      unfolding lr_def lr'_def using r(1) by (rule lin_ref_gap)
    moreover have "g < g' \<Longrightarrow> lg + 2 / 10000 \<le> lg'"
      unfolding lg_def lg'_def using g(1) by (rule lin_ref_gap)
    moreover have "b < b' \<Longrightarrow> lb + 2 / 10000 \<le> lb'"
      unfolding lb_def lb'_def using b(1) by (rule lin_ref_gap)
    moreover have "r < r' \<or> g < g' \<or> b < b'" using r g b ne by force
    ultimately show ?thesis by blast
  qed
  have 1: "luminance ideal_libs r g b
      = (2126 / 10000 * lr + 7152 / 10000 * lg) + 722 / 10000 * lb"
    by (simp add: luminance_ideal lr_def lg_def lb_def)
  have 2: "luminance ideal_libs r' g' b'
      = (2126 / 10000 * lr' + 7152 / 10000 * lg') + 722 / 10000 * lb'"
    by (simp add: luminance_ideal lr'_def lg'_def lb'_def)
  have "(2126 / 10000 * lr + 7152 / 10000 * lg) + 722 / 10000 * lb + 1444 / 100000000
      \<le> (2126 / 10000 * lr' + 7152 / 10000 * lg') + 722 / 10000 * lb'"
    using m s by linarith
  then show ?thesis using 1 2 by simp
qed

subsection \<open>From luminance to lightness\<close>

text \<open>
  At the threshold 0.008856 the exact lightness drops by about \<open>3 / 10 ^ 5\<close> from the
  linear piece to the cube root; the distance of two luminances makes up for it.
\<close>

lemma threshold_err:
  "float64_accurate L \<Longrightarrow> \<bar>flit L 0.008856 - 8856 / 1000000\<bar> \<le> eps64"
  using rnd_err [of L "0.008856"] by (simp add: flit_def)

lemma lightness_low:
  assumes acc: "float64_accurate L" and y: "- 1 \<le> y" "y \<le> flit L 0.008856"
  shows "\<bar>lightness_of L y - 9033 / 10 * y\<bar> \<le> 2 * eps64"
proof -
  define c where "c = rnd64 L 903.3"
  have c: "\<bar>c - 9033 / 10\<bar> \<le> eps64"
    unfolding c_def using rnd_err [OF acc, of "903.3"] by simp
  have y1: "\<bar>y\<bar> \<le> 1" using y threshold_err [OF acc] eps64_val by linarith
  have "\<bar>y * c - y * (9033 / 10)\<bar> \<le> 0 * (9033 / 10 + 1) + 1 * eps64"
    using _ c y1 by (rule mult_err) (use c eps64_val in \<open>simp, linarith\<close>)
  then have m: "\<bar>y * c - 9033 / 10 * y\<bar> \<le> eps64" by (simp add: mult.commute)
  have "\<bar>9033 / 10 * y\<bar> \<le> 9033 / 10" using y1 by simp
  then have "\<bar>y * c\<bar> \<le> 1024" using m eps64_val by linarith
  then have "\<bar>rnd64 L (y * c) - y * c\<bar> \<le> eps64" by (rule rnd_err [OF acc])
  moreover have "lightness_of L y = rnd64 L (y * c)"
    using y by (simp add: lightness_of_def f64_defs c_def)
  ultimately show ?thesis using m by linarith
qed

lemma cube_root_le:
  assumes "0 < y" "y \<le> (1001 / 1000 :: real)"
  shows "y powr (1 / 3) \<le> 1001 / 1000"
proof -
  have "y powr (1 / 3) \<le> (1 + 1 / 1000) powr (1 / 3)" using assms by (intro powr_mono2) auto
  also have "\<dots> \<le> (1 + 1 / 1000) powr 1" by (intro powr_mono) auto
  finally show ?thesis by simp
qed

lemma lightness_high:
  assumes acc: "float64_accurate L" and y: "flit L 0.008856 < y" "y \<le> 1001 / 1000"
  shows "\<bar>lightness_of L y - (116 * y powr (1 / 3) - 16)\<bar> \<le> 27000 * eps64"
proof -
  define e where "e = rnd64 L (1 / 3)"
  define P where "P = math_Pow L y e"
  define q where "q = rnd64 L (P * 116)"
  have e: "\<bar>e - 1 / 3\<bar> \<le> eps64" unfolding e_def by (intro rnd_err [OF acc]) simp
  have y0: "88 / 10000 \<le> y" using y threshold_err [OF acc] eps64_val by linarith
  have 1: "\<bar>P - y powr e\<bar> \<le> eps64"
    unfolding P_def using y0 y e eps64_val by (intro pow_err [OF acc]) linarith+
  have c: "y powr (1 / 3) \<le> 1001 / 1000" using y0 y by (intro cube_root_le) linarith+
  have "\<bar>y powr e - y powr (1 / 3)\<bar> \<le> y powr (1 / 3) * (2 * eps64 / (88 / 10000))"
    using y0 y e eps64_val by (intro powr_exponent_err) auto
  also have "\<dots> \<le> 1001 / 1000 * (2 * eps64 / (88 / 10000))"
    using c eps64_val by (intro mult_right_mono) auto
  finally have 2: "\<bar>y powr e - y powr (1 / 3)\<bar> \<le> 228 * eps64"
    using eps64_val by simp
  have 3: "\<bar>P - y powr (1 / 3)\<bar> \<le> 229 * eps64" using 1 2 by linarith
  have c0: "0 \<le> y powr (1 / 3)" by simp
  have "\<bar>P * 116\<bar> \<le> 1024" using 3 c c0 eps64_val by linarith
  then have 4: "\<bar>q - P * 116\<bar> \<le> eps64" unfolding q_def by (rule rnd_err [OF acc])
  have "\<bar>q - 16\<bar> \<le> 1024" using 3 4 c c0 eps64_val by linarith
  then have 5: "\<bar>rnd64 L (q - 16) - (q - 16)\<bar> \<le> eps64" by (rule rnd_err [OF acc])
  have "lightness_of L y = rnd64 L (q - 16)"
    using y by (simp add: lightness_of_def f64_defs q_def P_def e_def)
  then show ?thesis using 3 4 5 eps64_val by linarith
qed

lemma cube_root_theta: "206892 / 1000000 \<le> (88559 / 10000000 :: real) powr (1 / 3)"
proof -
  have "(206892 / 1000000 :: real) = ((206892 / 1000000) ^ 3) powr (1 / 3)"
    by (rule cube_root_cube [symmetric]) simp
  also have "\<dots> \<le> (88559 / 10000000) powr (1 / 3)"
    by (intro powr_mono2) (simp_all add: power_divide)
  finally show ?thesis .
qed

lemma lightness_mono_core:
  assumes acc: "float64_accurate L"
    and y: "- 1 \<le> y" "y + 14 / 1000000 \<le> y'" "y' \<le> 1001 / 1000"
  shows "lightness_of L y \<le> lightness_of L y'"
proof -
  define t where "t = flit L 0.008856"
  have t: "\<bar>t - 8856 / 1000000\<bar> \<le> eps64" unfolding t_def using acc by (rule threshold_err)
  consider "y' \<le> t" | "t < y" | "y \<le> t" "t < y'" by linarith
  then show ?thesis
  proof cases
    case 1
    then have "y \<le> t" using y by linarith
    then have "\<bar>lightness_of L y - 9033 / 10 * y\<bar> \<le> 2 * eps64"
      unfolding t_def using acc y(1) by (intro lightness_low)
    moreover have "\<bar>lightness_of L y' - 9033 / 10 * y'\<bar> \<le> 2 * eps64"
      using 1 y unfolding t_def by (intro lightness_low [OF acc]) linarith+
    ultimately show ?thesis using y eps64_val by linarith
  next
    case 2
    then have y0: "0 < y" using t eps64_val by linarith
    have a: "\<bar>lightness_of L y - (116 * y powr (1 / 3) - 16)\<bar> \<le> 27000 * eps64"
      using 2 y unfolding t_def by (intro lightness_high [OF acc]) linarith+
    have b: "\<bar>lightness_of L y' - (116 * y' powr (1 / 3) - 16)\<bar> \<le> 27000 * eps64"
      using 2 y unfolding t_def by (intro lightness_high [OF acc]) linarith+
    have "(y' - y) / (301 / 100) \<le> y' powr (1 / 3) - y powr (1 / 3)"
      using y0 y by (intro cube_root_slope) linarith+
    then have "100 / 301 * (y' - y) \<le> y' powr (1 / 3) - y powr (1 / 3)" by simp
    then show ?thesis using a b y eps64_val by argo
  next
    case 3
    have a: "\<bar>lightness_of L y - 9033 / 10 * y\<bar> \<le> 2 * eps64"
      using 3 y unfolding t_def by (intro lightness_low [OF acc]) linarith+
    have b: "\<bar>lightness_of L y' - (116 * y' powr (1 / 3) - 16)\<bar> \<le> 27000 * eps64"
      using 3 y unfolding t_def by (intro lightness_high [OF acc]) linarith+
    have th: "88559 / 10000000 \<le> y'" using 3 t eps64_val by linarith
    define c where "c = (88559 / 10000000 :: real) powr (1 / 3)"
    have "(y' - 88559 / 10000000) / (301 / 100) \<le> y' powr (1 / 3) - c"
      unfolding c_def using th y by (intro cube_root_slope) linarith+
    then have "100 / 301 * (y' - 88559 / 10000000) \<le> y' powr (1 / 3) - c" by simp
    moreover have "206892 / 1000000 \<le> c" unfolding c_def by (rule cube_root_theta)
    ultimately show ?thesis using a b y 3 t eps64_val by argo
  qed
qed

lemma lightness_black_core: "float64_accurate L \<Longrightarrow> lightness_of L 0 = 0"
proof -
  assume acc: "float64_accurate L"
  have "0 \<le> flit L 0.008856" using threshold_err [OF acc] eps64_val by linarith
  then show ?thesis by (simp add: lightness_of_def) (simp add: f64_defs rnd_zero [OF acc])
qed

lemma cube_root_near_one:
  assumes "0 < y"
  shows "\<bar>y powr (1 / 3) - 1\<bar> \<le> \<bar>y - (1::real)\<bar>"
proof (cases "1 \<le> y")
  case True
  have "y powr (1 / 3) \<le> y powr 1" using True by (intro powr_mono) auto
  moreover have "1 \<le> y powr (1 / 3)" using True by (intro ge_one_powr_ge_zero) auto
  ultimately show ?thesis using True by simp
next
  case False
  have "y powr 1 \<le> y powr (1 / 3)" using False assms by (intro powr_mono') auto
  moreover have "y powr (1 / 3) \<le> 1" using False assms by (intro powr_le1) auto
  ultimately show ?thesis using False assms by simp
qed

lemma lightness_white_core:
  assumes acc: "float64_accurate L" and y: "\<bar>y - 1\<bar> \<le> 480 * eps64"
  shows "\<bar>lightness_of L y - 100\<bar> \<le> 1 / 10 ^ 7"
proof -
  have t: "\<bar>flit L 0.008856 - 8856 / 1000000\<bar> \<le> eps64" using acc by (rule threshold_err)
  have a: "\<bar>lightness_of L y - (116 * y powr (1 / 3) - 16)\<bar> \<le> 27000 * eps64"
    using y t eps64_val by (intro lightness_high [OF acc]) linarith+
  have "0 < y" using y eps64_val by linarith
  then have "\<bar>y powr (1 / 3) - 1\<bar> \<le> \<bar>y - 1\<bar>" by (rule cube_root_near_one)
  then have "\<bar>lightness_of L y - 100\<bar> \<le> 1 / 10000000" using a y eps64_val by linarith
  then show ?thesis by simp
qed


lemma grid_err: "\<bar>grid x - x\<bar> \<le> eps64"
proof -
  define K :: real where "K = 2 ^ 44"
  define n :: real where "n = of_int (round (x * K))"
  have K: "0 < K" by (simp add: K_def)
  have "\<bar>n - x * K\<bar> \<le> 1 / 2" unfolding n_def by (rule of_int_round_abs_le)
  then have "\<bar>n - x * K\<bar> / K \<le> 1 / 2 / K" using K by (intro divide_right_mono) auto
  moreover have "grid x = n / K" by (simp only: grid_def n_def K_def)
  then have "grid x - x = (n - x * K) / K" using K by (simp add: field_simps)
  then have "\<bar>grid x - x\<bar> = \<bar>n - x * K\<bar> / K" using K by (simp add: abs_divide)
  moreover have "1 / 2 / K \<le> eps64" by (simp add: eps64_def K_def)
  ultimately show ?thesis by linarith
qed

lemma float64_accurate_grid: "float64_accurate grid_libs"
  using grid_err by (simp add: float64_accurate_def grid_libs_def) (simp add: grid_def)

text \<open>
  C6. When \<open>float64\<close> rounding and \<^verbatim>\<open>math.Pow\<close> are accurate in the sense of
  \<open>float64_accurate\<close>, the perceived lightness of (0, 0, 0) is exactly 0, that of
  (255, 255, 255) is within \<open>1 / 10 ^ 7\<close> of 100, and for two RGB triplets with
  components within 0 to 255, the first componentwise at most the second, the lightness
  of the first is at most that of the second.
\<close>

theorem lightness_bounds:
  "float64_accurate L \<Longrightarrow>
   perceivedLightness L 0 0 0 = 0 \<and>
   \<bar>perceivedLightness L 255 255 255 - 100\<bar> \<le> 1 / 10 ^ 7 \<and>
   (0 \<le> r \<and> r \<le> r' \<and> r' \<le> 255 \<and> 0 \<le> g \<and> g \<le> g' \<and> g' \<le> 255 \<and>
    0 \<le> b \<and> b \<le> b' \<and> b' \<le> 255 \<longrightarrow>
      perceivedLightness L r g b \<le> perceivedLightness L r' g' b')"
proof -
  assume acc: "float64_accurate L"
  have 1: "perceivedLightness L 0 0 0 = 0"
    by (simp add: perceivedLightness_eq luminance_zero [OF acc] lightness_black_core [OF acc])
  have "\<bar>luminance L 255 255 255 - luminance ideal_libs 255 255 255\<bar> \<le> 480 * eps64"
    using acc by (rule luminance_err) simp_all
  then have "\<bar>luminance L 255 255 255 - 1\<bar> \<le> 480 * eps64" by (simp only: luminance_ref_white)
  then have 2: "\<bar>perceivedLightness L 255 255 255 - 100\<bar> \<le> 1 / 10 ^ 7"
    unfolding perceivedLightness_eq using acc by (intro lightness_white_core)
  have 3: "perceivedLightness L r g b \<le> perceivedLightness L r' g' b'"
    if h: "0 \<le> r" "r \<le> r'" "r' \<le> 255" "0 \<le> g" "g \<le> g'" "g' \<le> 255"
      "0 \<le> b" "b \<le> b'" "b' \<le> 255"
  proof (cases "(r, g, b) = (r', g', b')")
    case True
    then show ?thesis by simp
  next
    case False
    have e: "\<bar>luminance L r g b - luminance ideal_libs r g b\<bar> \<le> 480 * eps64"
      using acc h by (intro luminance_err) linarith+
    have e': "\<bar>luminance L r' g' b' - luminance ideal_libs r' g' b'\<bar> \<le> 480 * eps64"
      using acc h by (intro luminance_err) linarith+
    have gap: "luminance ideal_libs r g b + 1444 / 10 ^ 8 \<le> luminance ideal_libs r' g' b'"
      using h False by (intro luminance_ref_gap) auto
    then have gap': "luminance ideal_libs r g b + 1444 / 100000000 \<le> luminance ideal_libs r' g' b'"
      by simp
    have lo: "0 \<le> luminance ideal_libs r g b"
      using h luminance_ref_range [of r g b] by simp
    have hi: "luminance ideal_libs r' g' b' \<le> 1"
      using h luminance_ref_range [of r' g' b'] by simp
    have "lightness_of L (luminance L r g b) \<le> lightness_of L (luminance L r' g' b')"
      using acc by (rule lightness_mono_core) (use e e' gap' lo hi eps64_val in linarith)+
    then show ?thesis by (simp only: perceivedLightness_eq)
  qed
  show ?thesis using 1 2 3 by blast
qed

theorem lightness_bounds_witness:
  "float64_accurate ideal_libs \<and> float64_accurate grid_libs \<and>
   perceivedLightness ideal_libs 0 0 0 = 0 \<and>
   \<bar>perceivedLightness ideal_libs 255 255 255 - 100\<bar> \<le> 1 / 10 ^ 7 \<and>
   perceivedLightness ideal_libs 10 20 30 \<le> perceivedLightness ideal_libs 10 20 31 \<and>
   perceivedLightness grid_libs 0 0 0 = 0 \<and>
   \<bar>perceivedLightness grid_libs 255 255 255 - 100\<bar> \<le> 1 / 10 ^ 7 \<and>
   perceivedLightness grid_libs 10 20 30 \<le> perceivedLightness grid_libs 10 20 31"
  using lightness_bounds [OF float64_accurate_ideal, of 10 10 20 20 30 31]
    lightness_bounds [OF float64_accurate_grid, of 10 10 20 20 30 31]
    float64_accurate_ideal float64_accurate_grid
  by simp

end
